theory Spec2Isabelle
  imports Complex_Main "HOL-Library.Char_ord" "HOL-Library.List_Lexorder" "HOL-Library.Sublist"
begin

section \<open>Values, exceptions and the world the programs act on\<close>

text \<open>
  TaskArena ships two implementations of the same queue: the service (\<^verbatim>\<open>service.py\<close>) and
  the generic tool set (\<^verbatim>\<open>.agents/tools/util.py\<close>, \<^verbatim>\<open>worker.py\<close>, \<^verbatim>\<open>judge.py\<close>).
  Both keep one file per job in four directories and move it by an atomic rename.

  A parsed JSON document, as \<^verbatim>\<open>json.loads\<close> returns it: a dict is an association list in
  insertion order.
\<close>

datatype json =
    JNull
  | JBool bool
  | JNum real
  | JStr string
  | JArr "json list"
  | JObj "(string \<times> json) list"

text \<open>The exceptions the modelled code can meet, by their Python class.\<close>

datatype exn =
    FileNotFoundError
  | AttributeError
  | TypeError
  | KeyError
  | JSONDecodeError
  | OSError
  | TimeoutExpired
  | RuntimeError string

text \<open>
  The four state directories of the queue. (\<^verbatim>\<open>util.py\<close> takes a directory \<^verbatim>\<open>failed\<close> beside
  \<^verbatim>\<open>queue\<close> for its failed records when one exists at import time; the model has the
  layout that \<^verbatim>\<open>ensure_dirs\<close> creates, with \<^verbatim>\<open>queue/failed\<close>, which is also the directory the
  drain reads.)
\<close>

datatype place = Inbox | Running | Done | Failed

text \<open>A directory lists its files: name and text. A path is a directory and a file name.\<close>

type_synonym directory = "(string \<times> string) list"
type_synonym path = "place \<times> string"

text \<open>
  One call of the external agent. The file-based style passes a temporary file; the model
  keeps the text written to that file in place of its name.
\<close>

datatype invocation =
    DashP string
  | CodePlan string string
  | CodeApply string string

text \<open>The step of the protocol that makes a call.\<close>

datatype phase = Plan | Apply

text \<open>
  How the agent process behaves on a call: it exits after some seconds with a status and
  its two output streams, it never exits, or it cannot be started.
\<close>

datatype behaviour =
    Exits nat int string string
  | Never
  | CannotStart

text \<open>What \<^verbatim>\<open>subprocess.run\<close> returns: a completed process.\<close>

datatype completed = Completed (returncode: int) (stdout: string) (stderr: string)

text \<open>
  The scoreboard snapshot of \<^verbatim>\<open>judge.py\<close>: its directory \<^verbatim>\<open>scores\<close> does not exist, or the
  directory exists and holds no snapshot, or the snapshot file has a text.
\<close>

datatype snapshot = NoDirectory | NoFile | File string

record world =
  queue :: "place \<Rightarrow> directory"
  PATCHES :: "(string list \<times> string) list"
  LOG_FILE :: "json list"
  SCORE_FILE :: snapshot
  invoked :: "(phase \<times> invocation) list"

text \<open>
  \<^verbatim>\<open>PATCHES\<close> holds the artifact files by their path below the patch directory;
  \<^verbatim>\<open>LOG_FILE\<close> holds, per appended line, the object whose \<^verbatim>\<open>json.dumps\<close> text was
  written; \<^verbatim>\<open>invoked\<close> records the agent calls that were started, in order, each with
  the step that made it.

  Everything the programs read from outside: library functions that are not part of the
  repository, the file system outside the queue, the clock and the agent.
\<close>

record env =
  loads :: "string \<Rightarrow> json option"
  dumps :: "json \<Rightarrow> string"
  is_dir :: "string \<Rightarrow> bool"
  expanduser :: "string \<Rightarrow> string"
  resolve :: "string \<Rightarrow> string"
  sha256_hex8 :: "string \<Rightarrow> string"
  slug_of :: "string \<Rightarrow> string"
  host_rules :: "string \<Rightarrow> string"
  agents_rules :: string
  claude_cli :: "string option"
  claude_on_path :: bool
  supports_dash_p :: bool
  agent :: "invocation \<Rightarrow> behaviour"
  time_now :: real
  latency_s :: real
  uuid4 :: string
  exc_text :: "exn \<Rightarrow> string"
  exc_name :: "exn \<Rightarrow> string"
  PLAN_BASE :: string

text \<open>
  \<^verbatim>\<open>loads\<close> is \<^verbatim>\<open>json.loads\<close> (\<open>None\<close>: it raises \<^verbatim>\<open>JSONDecodeError\<close>) and \<^verbatim>\<open>dumps\<close> is
  \<^verbatim>\<open>json.dumps\<close>; \<^verbatim>\<open>is_dir p\<close> is \<^verbatim>\<open>p.exists() and p.is_dir()\<close>; \<^verbatim>\<open>expanduser\<close> and
  \<^verbatim>\<open>resolve\<close> give the text of the path after \<^verbatim>\<open>Path(p).expanduser()\<close> and
  \<^verbatim>\<open>Path(p).resolve()\<close>; \<^verbatim>\<open>sha256_hex8\<close> and \<^verbatim>\<open>slug_of\<close> are the digest prefix and the slug
  that \<^verbatim>\<open>compute_repo_key\<close> joins; \<^verbatim>\<open>host_rules\<close> is \<^verbatim>\<open>load_host_rules\<close> and
  \<^verbatim>\<open>agents_rules\<close> the text of the agent rules file (empty when unreadable);
  \<^verbatim>\<open>claude_cli\<close> is what \<^verbatim>\<open>_resolve_claude_cli\<close> finds (\<open>None\<close>: it raises),
  \<^verbatim>\<open>claude_on_path\<close> is \<^verbatim>\<open>claude_available()\<close>, \<^verbatim>\<open>supports_dash_p\<close> the result of the help
  probe; \<^verbatim>\<open>time_now\<close> is \<^verbatim>\<open>time.time()\<close>, \<^verbatim>\<open>latency_s\<close> the rounded time difference
  \<^verbatim>\<open>worker.py\<close> logs, \<^verbatim>\<open>uuid4\<close> the text of a fresh \<^verbatim>\<open>uuid.uuid4()\<close>; \<^verbatim>\<open>exc_text\<close> and
  \<^verbatim>\<open>exc_name\<close> are \<^verbatim>\<open>str(exc)\<close> and \<^verbatim>\<open>type(exc).__name__\<close>; \<^verbatim>\<open>PLAN_BASE\<close> is the text of
  \<^verbatim>\<open>plan_prompt.md\<close>. A \<open>char\<close> stands for the code point of the same number.
\<close>

text \<open>
  The result of running a piece of the program on a world: it returns a value, an
  exception leaves it, or it never returns. Each carries the world reached.
\<close>

datatype 'a result = Return 'a world | Raise exn world | Hang world

fun world_of :: "'a result \<Rightarrow> world" where
  "world_of (Return x w) = w"
| "world_of (Raise x w) = w"
| "world_of (Hang w) = w"

definition bind :: "'a result \<Rightarrow> ('a \<Rightarrow> world \<Rightarrow> 'b result) \<Rightarrow> 'b result" where
  "bind r f = (case r of Return x w \<Rightarrow> f x w | Raise x w \<Rightarrow> Raise x w | Hang w \<Rightarrow> Hang w)"

section \<open>Files and directories\<close>

definition ends_with :: "string \<Rightarrow> string \<Rightarrow> bool" where
  "ends_with sfx n = (length sfx \<le> length n \<and> drop (length n - length sfx) n = sfx)"

text \<open>\<^verbatim>\<open>d.glob("*.json")\<close>: the names of the directory that end in \<^verbatim>\<open>.json\<close>.\<close>

definition glob_json :: "directory \<Rightarrow> string list" where
  "glob_json d = filter (ends_with ''.json'') (map fst d)"

definition write_file :: "string \<Rightarrow> string \<Rightarrow> directory \<Rightarrow> directory" where
  "write_file n c d = (n, c) # filter (\<lambda>f. fst f \<noteq> n) d"

definition unlink :: "string \<Rightarrow> directory \<Rightarrow> directory" where
  "unlink n d = filter (\<lambda>f. fst f \<noteq> n) d"

definition write_text :: "path \<Rightarrow> string \<Rightarrow> world \<Rightarrow> world" where
  "write_text p c w = w\<lparr>queue := (queue w)(fst p := write_file (snd p) c (queue w (fst p)))\<rparr>"

text \<open>\<^verbatim>\<open>p.unlink(missing_ok=True)\<close>.\<close>

definition unlink_path :: "path \<Rightarrow> world \<Rightarrow> world" where
  "unlink_path p w = w\<lparr>queue := (queue w)(fst p := unlink (snd p) (queue w (fst p)))\<rparr>"

text \<open>
  \<^verbatim>\<open>os.replace(src, dst)\<close> and \<^verbatim>\<open>src.rename(dst)\<close>: one atomic step that takes the file out
  of its directory and puts it, over any file of that name, into the target; a missing
  source raises \<^verbatim>\<open>FileNotFoundError\<close> and changes nothing.
\<close>

definition os_replace :: "path \<Rightarrow> path \<Rightarrow> world \<Rightarrow> unit result" where
  "os_replace src dst w =
     (case map_of (queue w (fst src)) (snd src) of
        None \<Rightarrow> Raise FileNotFoundError w
      | Some c \<Rightarrow> Return () (write_text dst c (unlink_path src w)))"

section \<open>The job store\<close>

text \<open>
  \<^verbatim>\<open>util.ensure_dirs\<close> creates the directories that are missing, the one of the scoreboard
  among them. The state directories, the patch directory and the log directory are there
  in every world of the model, so only the scoreboard directory can change. The service's
  \<^verbatim>\<open>ensure_directories\<close> makes no scoreboard directory and changes no world.
\<close>

definition ensure_dirs :: "world \<Rightarrow> world" where
  "ensure_dirs w = (case SCORE_FILE w of NoDirectory \<Rightarrow> w\<lparr>SCORE_FILE := NoFile\<rparr> | _ \<Rightarrow> w)"

text \<open>\<^verbatim>\<open>atomic_write_json\<close> (both files): write a temporary sibling, then rename it into place.\<close>

definition atomic_write_json :: "env \<Rightarrow> path \<Rightarrow> json \<Rightarrow> world \<Rightarrow> unit result" where
  "atomic_write_json e p payload w =
     (let tmp = (fst p, snd p @ ''.tmp'')
      in os_replace tmp p (write_text tmp (dumps e payload) w))"

text \<open>
  \<^verbatim>\<open>util.enqueue\<close>; \<^verbatim>\<open>tid\<close> is the value \<^verbatim>\<open>uuid.uuid4()\<close> returned. It returns the id
  and the path.
\<close>

definition enqueue ::
  "env \<Rightarrow> string \<Rightarrow> string \<Rightarrow> string \<Rightarrow> string \<Rightarrow> string option \<Rightarrow> world \<Rightarrow> (string \<times> path) result" where
  "enqueue e tid prompt repo mode hint w =
     (let task = [(''id'', JStr tid), (''mode'', JStr mode), (''prompt'', JStr prompt), (''repo'', JStr repo)];
          task' = (case hint of
                     None \<Rightarrow> task
                   | Some h \<Rightarrow> if h = [] then task else task @ [(''hint'', JStr h)]);
          dst = (Inbox, tid @ ''.json'')
      in bind (atomic_write_json e dst (JObj task') (ensure_dirs w)) (\<lambda>_. Return (tid, dst)))"

text \<open>
  \<^verbatim>\<open>service.enqueue_job\<close>; the only caller (\<^verbatim>\<open>do_POST\<close>) builds the job with a fresh
  \<^verbatim>\<open>uuid4\<close> as its id, which is the argument \<^verbatim>\<open>job_id\<close> here.
\<close>

definition enqueue_job :: "env \<Rightarrow> string \<Rightarrow> json \<Rightarrow> world \<Rightarrow> path result" where
  "enqueue_job e job_id job w =
     (let job_file = (Inbox, job_id @ ''.json'')
      in bind (atomic_write_json e job_file job w) (\<lambda>_. Return job_file))"

text \<open>
  The claim loop of both files: try the candidates in order, the first rename that
  succeeds wins; a candidate that is gone is skipped. The candidates are the listing taken
  before the loop, so the function is stated for any list of names.
\<close>

fun claim_from :: "string list \<Rightarrow> world \<Rightarrow> (path option) result" where
  "claim_from [] w = Return None w"
| "claim_from (p # ps) w =
     (case os_replace (Inbox, p) (Running, p) w of
        Return _ w' \<Rightarrow> Return (Some (Running, p)) w'
      | Raise _ _ \<Rightarrow> claim_from ps w
      | Hang w' \<Rightarrow> Hang w')"

text \<open>\<^verbatim>\<open>util.claim\<close>.\<close>

definition claim :: "world \<Rightarrow> (path option) result" where
  "claim w = claim_from (sort (glob_json (queue (ensure_dirs w) Inbox))) (ensure_dirs w)"

text \<open>\<^verbatim>\<open>service.claim_job\<close>.\<close>

definition claim_job :: "world \<Rightarrow> (path option) result" where
  "claim_job w = claim_from (sort (glob_json (queue w Inbox))) w"

text \<open>\<^verbatim>\<open>util.finish\<close>.\<close>

definition finish :: "path \<Rightarrow> bool \<Rightarrow> world \<Rightarrow> path result" where
  "finish tpath ok w =
     (let dst = (if ok then Done else Failed, snd tpath)
      in bind (os_replace tpath dst w) (\<lambda>_. Return dst))"

text \<open>\<^verbatim>\<open>service.finish_job\<close>.\<close>

definition finish_job :: "path \<Rightarrow> bool \<Rightarrow> world \<Rightarrow> unit result" where
  "finish_job job_file success w =
     (let target_dir = (if success then Done else Failed);
          target = (target_dir, snd job_file)
      in os_replace job_file target w)"

section \<open>The scoreboard drain\<close>

text \<open>Python's \<^verbatim>\<open>d[k] = v\<close> on a dict: an existing key keeps its position.\<close>

fun dict_set :: "string \<Rightarrow> json \<Rightarrow> (string \<times> json) list \<Rightarrow> (string \<times> json) list" where
  "dict_set k v [] = [(k, v)]"
| "dict_set k v (kv # kvs) = (if fst kv = k then (k, v) # kvs else kv # dict_set k v kvs)"

text \<open>
  \<^verbatim>\<open>s[k] += 1\<close> on whatever \<^verbatim>\<open>load_score\<close> returned: a dict with a number (or a bool,
  which Python adds as 0 or 1) under the key is updated; anything else raises.
\<close>

definition incr :: "string \<Rightarrow> json \<Rightarrow> exn + json" where
  "incr k s =
     (case s of
        JObj kvs \<Rightarrow>
          (case map_of kvs k of
             None \<Rightarrow> Inl KeyError
           | Some (JNum x) \<Rightarrow> Inr (JObj (dict_set k (JNum (x + 1)) kvs))
           | Some (JBool b) \<Rightarrow> Inr (JObj (dict_set k (JNum (of_bool b + 1)) kvs))
           | Some _ \<Rightarrow> Inl TypeError)
      | _ \<Rightarrow> Inl TypeError)"

definition zero_score :: json where
  "zero_score = JObj [(''pass'', JNum 0), (''fail'', JNum 0)]"

text \<open>\<^verbatim>\<open>judge.load_score\<close>: any failure to read or parse gives the zero scoreboard.\<close>

definition load_score :: "env \<Rightarrow> world \<Rightarrow> json" where
  "load_score e w =
     (case SCORE_FILE w of
        File txt \<Rightarrow> (case loads e txt of None \<Rightarrow> zero_score | Some s \<Rightarrow> s)
      | _ \<Rightarrow> zero_score)"

text \<open>
  \<^verbatim>\<open>judge.save_score\<close>: \<^verbatim>\<open>SCORE_FILE.write_text\<close> creates or overwrites the file; nothing in
  \<^verbatim>\<open>judge.py\<close> creates the directory, and without it the write raises
  \<^verbatim>\<open>FileNotFoundError\<close>.
\<close>

definition save_score :: "env \<Rightarrow> json \<Rightarrow> world \<Rightarrow> unit result" where
  "save_score e s w =
     (case SCORE_FILE w of
        NoDirectory \<Rightarrow> Raise FileNotFoundError w
      | _ \<Rightarrow> Return () (w\<lparr>SCORE_FILE := File (dumps e s)\<rparr>))"

text \<open>One \<^verbatim>\<open>for p in list(d.glob("*.json")): s[k] += 1; p.unlink(missing_ok=True)\<close> loop.\<close>

fun count_and_unlink :: "place \<Rightarrow> string \<Rightarrow> string list \<Rightarrow> json \<Rightarrow> world \<Rightarrow> json result" where
  "count_and_unlink d k [] s w = Return s w"
| "count_and_unlink d k (p # ps) s w =
     (case incr k s of
        Inl x \<Rightarrow> Raise x w
      | Inr s' \<Rightarrow> count_and_unlink d k ps s' (unlink_path (d, p) w))"

text \<open>The body of the \<^verbatim>\<open>while True\<close> loop of \<^verbatim>\<open>judge.py\<close>: one drain cycle.\<close>

definition drain_cycle :: "env \<Rightarrow> json \<Rightarrow> world \<Rightarrow> json result" where
  "drain_cycle e s w =
     bind (count_and_unlink Done ''pass'' (glob_json (queue w Done)) s w) (\<lambda>s1 w1.
     bind (count_and_unlink Failed ''fail'' (glob_json (queue w1 Failed)) s1 w1) (\<lambda>s2 w2.
     bind (save_score e s2 w2) (\<lambda>_. Return s2)))"

section \<open>Text helpers\<close>

text \<open>The characters \<^verbatim>\<open>str.strip()\<close> removes, among the first 256 code points.\<close>

definition isspace :: "char \<Rightarrow> bool" where
  "isspace c = (c \<in> set [CHR 0x09, CHR 0x0A, CHR 0x0B, CHR 0x0C, CHR 0x0D, CHR 0x1C, CHR 0x1D,
                           CHR 0x1E, CHR 0x1F, CHR 0x20, CHR 0x85, CHR 0xA0])"

definition strip :: "string \<Rightarrow> string" where
  "strip s = rev (dropWhile isspace (rev (dropWhile isspace s)))"

text \<open>Python's truth value of a JSON value, as \<^verbatim>\<open>x or y\<close> tests it.\<close>

definition truthy :: "json \<Rightarrow> bool" where
  "truthy j =
     (case j of
        JNull \<Rightarrow> False
      | JBool b \<Rightarrow> b
      | JNum x \<Rightarrow> x \<noteq> 0
      | JStr t \<Rightarrow> t \<noteq> []
      | JArr xs \<Rightarrow> xs \<noteq> []
      | JObj kvs \<Rightarrow> kvs \<noteq> [])"

text \<open>\<^verbatim>\<open>d.get(k, default)\<close>.\<close>

definition dict_get :: "(string \<times> json) list \<Rightarrow> string \<Rightarrow> json \<Rightarrow> json" where
  "dict_get d k dflt = (case map_of d k of None \<Rightarrow> dflt | Some v \<Rightarrow> v)"

text \<open>\<^verbatim>\<open>name.rfind('.')\<close> and \<^verbatim>\<open>Path.stem\<close>.\<close>

fun find_char :: "char \<Rightarrow> string \<Rightarrow> nat option" where
  "find_char c [] = None"
| "find_char c (x # xs) =
     (if x = c then Some 0 else (case find_char c xs of None \<Rightarrow> None | Some k \<Rightarrow> Some (Suc k)))"

definition rfind :: "char \<Rightarrow> string \<Rightarrow> int" where
  "rfind c t = (case find_char c (rev t) of None \<Rightarrow> - 1 | Some k \<Rightarrow> int (length t) - 1 - int k)"

definition stem :: "string \<Rightarrow> string" where
  "stem name =
     (let i = rfind (CHR ''.'') name
      in if 0 < i \<and> i < int (length name) - 1 then take (nat i) name else name)"

section \<open>Calling the agent\<close>

text \<open>
  \<^verbatim>\<open>subprocess.run(args, capture_output=True, text=True, timeout=t)\<close> on the agent: the call
  is recorded; a process that cannot be started raises \<^verbatim>\<open>OSError\<close>; with a timeout, a
  process that has not exited in time is killed and \<^verbatim>\<open>TimeoutExpired\<close> is raised; with no
  timeout the call waits for the exit, for ever if there is none.
\<close>

definition started :: "phase \<Rightarrow> invocation \<Rightarrow> world \<Rightarrow> world" where
  "started ph args w = w\<lparr>invoked := invoked w @ [(ph, args)]\<rparr>"

definition subprocess_run :: "env \<Rightarrow> phase \<Rightarrow> invocation \<Rightarrow> nat option \<Rightarrow> world \<Rightarrow> completed result" where
  "subprocess_run e ph args timeout w =
     (let w' = started ph args w
      in case agent e args of
           CannotStart \<Rightarrow> Raise OSError w'
         | Never \<Rightarrow> (case timeout of None \<Rightarrow> Hang w' | Some t \<Rightarrow> Raise TimeoutExpired w')
         | Exits d rc out err \<Rightarrow>
             (case timeout of
                None \<Rightarrow> Return (Completed rc out err) w'
              | Some t \<Rightarrow> if d \<le> t then Return (Completed rc out err) w' else Raise TimeoutExpired w'))"

section \<open>The service: service.py\<close>

definition PLAN_TEMPLATE :: "string \<Rightarrow> string \<Rightarrow> string \<Rightarrow> string \<Rightarrow> string" where
  "PLAN_TEMPLATE job_id repo prompt rules =
     ''# TaskArena Planning Request\<newline>\<newline>## Job ID\<newline>'' @ job_id @
     ''\<newline>\<newline>## Working Directory\<newline>'' @ repo @
     ''\<newline>\<newline>## Task Prompt\<newline>'' @ prompt @
     ''\<newline>\<newline>## Combined Rules (Host takes precedence)\<newline>'' @ rules @
     ''\<newline>\<newline>Produce a concise plan with:\<newline>- Key constraints from the rules.\<newline>- 3-5 ordered steps that respect repo safety.\<newline>- Risks or blockers.\<newline>- Acceptance checks aligned with the host project.\<newline>''"

definition APPLY_TEMPLATE :: "string \<Rightarrow> string \<Rightarrow> string \<Rightarrow> string \<Rightarrow> string \<Rightarrow> string" where
  "APPLY_TEMPLATE job_id repo rules plan prompt =
     ''# TaskArena Apply Instructions\<newline>\<newline>You are executing TaskArena job '' @ job_id @
     '' in repository '' @ repo @
     ''.\<newline>\<newline>## Combined Rules (Host precedence)\<newline>'' @ rules @
     ''\<newline>\<newline>## Approved Plan\<newline>'' @ plan @
     ''\<newline>\<newline>## Task Prompt\<newline>'' @ prompt @
     ''\<newline>\<newline>Follow the approved plan. Explain the changes you make and ensure artifacts are generated.\<newline>''"

definition compute_repo_key :: "env \<Rightarrow> string \<Rightarrow> string" where
  "compute_repo_key e repo = slug_of e repo @ ''-'' @ sha256_hex8 e repo"

text \<open>\<^verbatim>\<open>read_text\<close> of a queue file: its text, or the empty text when it cannot be read.\<close>

definition read_text :: "path \<Rightarrow> world \<Rightarrow> string" where
  "read_text p w = (case map_of (queue w (fst p)) (snd p) of None \<Rightarrow> [] | Some c \<Rightarrow> c)"

definition combined_rules :: "env \<Rightarrow> string \<Rightarrow> string" where
  "combined_rules e repo =
     (let host = host_rules e repo; agents = agents_rules e
      in if host \<noteq> [] \<and> agents \<noteq> []
         then host @ ''\<newline>\<newline>---\<newline>\<newline># TaskArena Agent Rules\<newline>\<newline>'' @ agents
         else if host \<noteq> [] then host
         else if agents \<noteq> [] then agents
         else ''No additional rules available.'')"

text \<open>The message of the \<^verbatim>\<open>RuntimeError\<close> that \<^verbatim>\<open>_resolve_claude_cli\<close> raises.\<close>

definition cli_not_found :: string where
  "cli_not_found =
     ''Claude CLI executable not found. Install the `claude` command, add it to your PATH, '' @
     ''or set CLAUDE_CLI to its full path before starting TaskArena.''"

definition resolve_claude_cli :: "env \<Rightarrow> world \<Rightarrow> string result" where
  "resolve_claude_cli e w =
     (case claude_cli e of
        Some p \<Rightarrow> Return p w
      | None \<Rightarrow> Raise (RuntimeError cli_not_found) w)"

text \<open>
  \<^verbatim>\<open>_detect_supports_dash_p\<close>: a \<^verbatim>\<open>RuntimeError\<close> of the lookup is raised again; otherwise the
  cached result of the help probe.
\<close>

definition detect_supports_dash_p :: "env \<Rightarrow> world \<Rightarrow> bool result" where
  "detect_supports_dash_p e w = bind (resolve_claude_cli e w) (\<lambda>_. Return (supports_dash_p e))"

text \<open>\<^verbatim>\<open>_run_subprocess\<close>: no timeout is passed.\<close>

definition run_subprocess :: "env \<Rightarrow> phase \<Rightarrow> invocation \<Rightarrow> world \<Rightarrow> completed result" where
  "run_subprocess e ph args w = subprocess_run e ph args None w"

definition run_plan :: "env \<Rightarrow> string \<Rightarrow> string \<Rightarrow> string \<Rightarrow> world \<Rightarrow> (completed \<times> string) result" where
  "run_plan e repo prompt job_id w =
     (let rules_text = combined_rules e repo;
          plan_prompt = PLAN_TEMPLATE job_id repo prompt rules_text
      in bind (detect_supports_dash_p e w) (\<lambda>supports_dash w1.
         bind (resolve_claude_cli e w1) (\<lambda>claude_cli w2.
           if supports_dash
           then bind (run_subprocess e Plan (DashP plan_prompt) w2) (\<lambda>proc. Return (proc, rules_text))
           else bind (run_subprocess e Plan (CodePlan repo plan_prompt) w2) (\<lambda>proc. Return (proc, rules_text)))))"

definition approved_plan :: "string \<Rightarrow> string" where
  "approved_plan plan_output = (if strip plan_output \<noteq> [] then strip plan_output else ''Plan output missing.'')"

definition run_apply :: "env \<Rightarrow> string \<Rightarrow> string \<Rightarrow> string \<Rightarrow> string \<Rightarrow> string \<Rightarrow> world \<Rightarrow> completed result" where
  "run_apply e repo prompt job_id rules_text plan_output w =
     (let apply_prompt = APPLY_TEMPLATE job_id repo rules_text (approved_plan plan_output) prompt
      in bind (detect_supports_dash_p e w) (\<lambda>supports_dash w1.
         bind (resolve_claude_cli e w1) (\<lambda>claude_cli w2.
           if supports_dash
           then run_subprocess e Apply (DashP apply_prompt) w2
           else run_subprocess e Apply (CodeApply repo apply_prompt) w2)))"

text \<open>
  The agent calls that \<^verbatim>\<open>run_plan\<close> and \<^verbatim>\<open>run_apply\<close> make, and the exit status that
  \<^verbatim>\<open>subprocess.run\<close> with the given timeout reports for a call (none when the process does
  not start, is killed at the timeout or never exits).
\<close>

definition plan_call :: "env \<Rightarrow> string \<Rightarrow> string \<Rightarrow> string \<Rightarrow> invocation" where
  "plan_call e repo prompt job_id =
     (let plan_prompt = PLAN_TEMPLATE job_id repo prompt (combined_rules e repo)
      in if supports_dash_p e then DashP plan_prompt else CodePlan repo plan_prompt)"

definition apply_call :: "env \<Rightarrow> string \<Rightarrow> string \<Rightarrow> string \<Rightarrow> string \<Rightarrow> invocation" where
  "apply_call e repo prompt job_id plan_output =
     (let apply_prompt = APPLY_TEMPLATE job_id repo (combined_rules e repo) (approved_plan plan_output) prompt
      in if supports_dash_p e then DashP apply_prompt else CodeApply repo apply_prompt)"

definition exit_status :: "env \<Rightarrow> nat option \<Rightarrow> invocation \<Rightarrow> int option" where
  "exit_status e timeout args =
     (case agent e args of
        Exits d rc out err \<Rightarrow>
          (case timeout of None \<Rightarrow> Some rc | Some t \<Rightarrow> if d \<le> t then Some rc else None)
      | _ \<Rightarrow> None)"

text \<open>\<^verbatim>\<open>log_event\<close>: the timestamp is added unless the entry has one.\<close>

definition log_event :: "env \<Rightarrow> (string \<times> json) list \<Rightarrow> world \<Rightarrow> world" where
  "log_event e entry w =
     (let entry' = (if map_of entry ''ts'' = None then entry @ [(''ts'', JNum (time_now e))] else entry)
      in w\<lparr>LOG_FILE := LOG_FILE w @ [JObj entry']\<rparr>)"

text \<open>\<^verbatim>\<open>write_artifact\<close> of \<^verbatim>\<open>process_job\<close>, for a given artifact directory.\<close>

definition write_artifact :: "string list \<Rightarrow> string \<Rightarrow> string \<Rightarrow> world \<Rightarrow> world" where
  "write_artifact artifact_dir name content w =
     w\<lparr>PATCHES := (artifact_dir @ [name], content) # filter (\<lambda>f. fst f \<noteq> artifact_dir @ [name]) (PATCHES w)\<rparr>"

text \<open>
  Lines 271 to 275 of \<^verbatim>\<open>process_job\<close>: the values read from the parsed record, or the
  exception the first failing expression raises (\<^verbatim>\<open>job.get\<close> on a value that is no dict,
  \<^verbatim>\<open>Path\<close> of a value that is no text, \<^verbatim>\<open>strip\<close> on one, a path joined with one).
\<close>

definition job_fields :: "env \<Rightarrow> json \<Rightarrow> exn + (string \<times> string \<times> string \<times> string)" where
  "job_fields e job =
     (case job of
        JObj d \<Rightarrow>
          (case dict_get d ''dir'' (JStr ''.'') of
             JStr dir \<Rightarrow>
               (let repo = expanduser e dir
                in case dict_get d ''prompt'' (JStr []) of
                     JStr p \<Rightarrow>
                       (let prompt = strip p;
                            repo_key = (if truthy (dict_get d ''repo_key'' JNull)
                                        then dict_get d ''repo_key'' JNull
                                        else JStr (compute_repo_key e repo));
                            job_id = (if truthy (dict_get d ''id'' JNull)
                                      then dict_get d ''id'' JNull
                                      else JStr (uuid4 e))
                        in case (repo_key, job_id) of
                             (JStr rk, JStr jid) \<Rightarrow> Inr (repo, prompt, rk, jid)
                           | _ \<Rightarrow> Inl TypeError)
                   | _ \<Rightarrow> Inl AttributeError)
           | _ \<Rightarrow> Inl TypeError)
      | _ \<Rightarrow> Inl AttributeError)"

definition failure_entry :: "string \<Rightarrow> string \<Rightarrow> string \<Rightarrow> string \<Rightarrow> (string \<times> json) list" where
  "failure_entry job_id repo repo_key message =
     [(''id'', JStr job_id), (''dir'', JStr repo), (''repo_key'', JStr repo_key),
      (''ok'', JBool False), (''error'', JStr message)]"

definition process_job :: "env \<Rightarrow> path \<Rightarrow> world \<Rightarrow> unit result" where
  "process_job e job_file w =
     (case loads e (read_text job_file w) of
        None \<Rightarrow>
          bind (finish_job job_file False w) (\<lambda>_ w1.
          Return () (log_event e [(''id'', JStr (stem (snd job_file))), (''dir'', JNull), (''repo_key'', JNull),
                                  (''ok'', JBool False), (''error'', JStr ''Invalid job JSON'')] w1))
      | Some job \<Rightarrow>
          (case job_fields e job of
             Inl x \<Rightarrow> Raise x w
           | Inr (repo, prompt, repo_key, job_id) \<Rightarrow>
               (let artifact_dir = [repo_key, job_id]
                in if \<not> is_dir e repo then
                     (let message = ''Repository path does not exist: '' @ repo
                      in bind (finish_job job_file False (write_artifact artifact_dir ''error.txt'' message w)) (\<lambda>_ w1.
                         Return () (log_event e (failure_entry job_id repo repo_key message) w1)))
                   else if prompt = [] then
                     (let message = ''Empty prompt provided.''
                      in bind (finish_job job_file False (write_artifact artifact_dir ''error.txt'' message w)) (\<lambda>_ w1.
                         Return () (log_event e (failure_entry job_id repo repo_key message) w1)))
                   else
                     (case run_plan e repo prompt job_id w of
                        Raise (RuntimeError error_message) w1 \<Rightarrow>
                          bind (finish_job job_file False (write_artifact artifact_dir ''stderr.txt'' error_message w1)) (\<lambda>_ w2.
                          Return () (log_event e (failure_entry job_id repo repo_key error_message) w2))
                      | Raise x w1 \<Rightarrow> Raise x w1
                      | Hang w1 \<Rightarrow> Hang w1
                      | Return (plan_proc, rules_text) w1 \<Rightarrow>
                          (let w2 = write_artifact artifact_dir ''plan.stderr.txt'' (stderr plan_proc)
                                      (write_artifact artifact_dir ''plan.stdout.txt'' (stdout plan_proc) w1)
                           in if returncode plan_proc \<noteq> 0 then
                                bind (finish_job job_file False w2) (\<lambda>_ w3.
                                Return () (log_event e (failure_entry job_id repo repo_key ''Plan step failed'') w3))
                              else
                                bind (run_apply e repo prompt job_id rules_text (stdout plan_proc) w2) (\<lambda>apply_proc w3.
                                (let w4 = write_artifact artifact_dir ''apply.stderr.txt'' (stderr apply_proc)
                                            (write_artifact artifact_dir ''apply.stdout.txt'' (stdout apply_proc) w3);
                                     ok = (returncode apply_proc = 0)
                                 in bind (finish_job job_file ok w4) (\<lambda>_ w5.
                                    Return () (log_event e [(''id'', JStr job_id), (''dir'', JStr repo),
                                                            (''repo_key'', JStr repo_key), (''ok'', JBool ok)] w5)))))))))"

text \<open>\<^verbatim>\<open>str(exc)\<close>: the message of a \<^verbatim>\<open>RuntimeError\<close> raised by the code, else what Python prints.\<close>

definition str_exc :: "env \<Rightarrow> exn \<Rightarrow> string" where
  "str_exc e x = (case x of RuntimeError m \<Rightarrow> m | _ \<Rightarrow> exc_text e x)"

text \<open>
  The body of the \<^verbatim>\<open>while True\<close> loop of \<^verbatim>\<open>Worker.run\<close>. A returned value means the loop
  goes on to its next round; a raised exception leaves the loop and ends the thread.
\<close>

definition worker_round :: "env \<Rightarrow> world \<Rightarrow> unit result" where
  "worker_round e w =
     bind (claim_job w) (\<lambda>claimed w1.
       case claimed of
         None \<Rightarrow> Return () w1
       | Some job_file \<Rightarrow>
           (case process_job e job_file w1 of
              Raise exc w2 \<Rightarrow>
                bind (finish_job job_file False w2) (\<lambda>_ w3.
                Return () (log_event e [(''id'', JStr (stem (snd job_file))), (''dir'', JNull), (''repo_key'', JNull),
                                        (''ok'', JBool False),
                                        (''error'', JStr (''Worker exception: '' @ str_exc e exc))] w3))
            | r \<Rightarrow> r))"

text \<open>The first \<open>n\<close> rounds of \<^verbatim>\<open>Worker.run\<close>.\<close>

fun Worker_run :: "nat \<Rightarrow> env \<Rightarrow> world \<Rightarrow> unit result" where
  "Worker_run 0 e w = Return () w"
| "Worker_run (Suc n) e w = bind (worker_round e w) (\<lambda>_. Worker_run n e)"

section \<open>The generic worker: util.py and worker.py\<close>

definition util_combined_rules :: "env \<Rightarrow> string \<Rightarrow> string" where
  "util_combined_rules e repo_root =
     (let host = host_rules e repo_root; agents = agents_rules e
      in if host \<noteq> [] \<and> agents \<noteq> []
         then host @ ''\<newline>\<newline><!-- BEGIN: agents-fs-cli rules -->\<newline>'' @ agents @
              ''\<newline><!-- END: agents-fs-cli rules -->\<newline>''
         else if agents \<noteq> [] then agents
         else host)"

definition build_plan_prompt :: "env \<Rightarrow> string \<Rightarrow> string" where
  "build_plan_prompt e rules =
     (let rules_section = (if rules \<noteq> [] \<and> strip rules \<noteq> [] then strip rules
                           else ''_No additional rules found._'')
      in PLAN_BASE e @ ''\<newline>\<newline>## Constraints and Risks\<newline>'' @ rules_section)"

text \<open>The local \<^verbatim>\<open>run\<close> of \<^verbatim>\<open>claude_plan_apply\<close>: every call has \<^verbatim>\<open>timeout=600\<close>.\<close>

definition run :: "env \<Rightarrow> phase \<Rightarrow> invocation \<Rightarrow> world \<Rightarrow> completed result" where
  "run e ph args w = subprocess_run e ph args (Some 600) w"

text \<open>\<^verbatim>\<open>logj\<close>: after \<^verbatim>\<open>ensure_dirs\<close>, one line is appended.\<close>

definition logj :: "(string \<times> json) list \<Rightarrow> world \<Rightarrow> world" where
  "logj obj w = (ensure_dirs w)\<lparr>LOG_FILE := LOG_FILE (ensure_dirs w) @ [JObj obj]\<rparr>"

text \<open>
  \<^verbatim>\<open>claude_plan_apply\<close>. The apply text is whatever the record holds under \<^verbatim>\<open>prompt\<close>; a
  value that is no text makes the second call raise \<^verbatim>\<open>TypeError\<close> before a process starts.
\<close>

definition claude_plan_apply ::
  "env \<Rightarrow> string \<Rightarrow> string \<Rightarrow> json \<Rightarrow> world \<Rightarrow> (int \<times> string \<times> string) result" where
  "claude_plan_apply e repo plan_md apply_md w =
     (if \<not> claude_on_path e then Raise FileNotFoundError w
      else if supports_dash_p e then
        bind (run e Plan (DashP plan_md) w) (\<lambda>p1 w1.
        (case apply_md of
           JStr a \<Rightarrow>
             bind (run e Apply (DashP a) w1) (\<lambda>p2.
             Return (returncode p2, stdout p1 @ ''\<newline>---\<newline>'' @ stdout p2,
                     stderr p1 @ ''\<newline>---\<newline>'' @ stderr p2))
         | _ \<Rightarrow> Raise TypeError w1))
      else
        bind (run e Plan (CodePlan repo plan_md) w) (\<lambda>p_plan w1.
        (case apply_md of
           JStr a \<Rightarrow>
             bind (run e Apply (CodeApply repo a) w1) (\<lambda>p_apply.
             Return (returncode p_apply, stdout p_plan @ ''\<newline>---\<newline>'' @ stdout p_apply,
                     stderr p_plan @ ''\<newline>---\<newline>'' @ stderr p_apply))
         | _ \<Rightarrow> Raise TypeError w1)))"

text \<open>The body of the \<^verbatim>\<open>try\<close> of \<^verbatim>\<open>run_once\<close>; it returns \<^verbatim>\<open>(ok, out, err)\<close>.\<close>

definition try_body :: "env \<Rightarrow> json \<Rightarrow> world \<Rightarrow> (bool \<times> string \<times> string) result" where
  "try_body e task w =
     (case task of
        JObj d \<Rightarrow>
          (case dict_get d ''repo'' (JStr ''.'') of
             JStr r \<Rightarrow>
               (let repo_root = resolve e r;
                    rules = util_combined_rules e repo_root;
                    plan_md = build_plan_prompt e rules
                in case map_of d ''prompt'' of
                     None \<Rightarrow> Raise KeyError w
                   | Some apply_md \<Rightarrow>
                       if \<not> claude_on_path e
                       then Return (False, [], ''Claude CLI ('' @ [CHR 0x27] @ ''claude'' @ [CHR 0x27] @
                                    '') not found on PATH. Install the claude CLI to process tasks.'') w
                       else bind (claude_plan_apply e repo_root plan_md apply_md w) (\<lambda>(rc, out, err).
                            Return (rc = 0, out, err)))
           | _ \<Rightarrow> Raise TypeError w)
      | _ \<Rightarrow> Raise AttributeError w)"

text \<open>\<^verbatim>\<open>task["id"]\<close> used as a path component and as the logged id.\<close>

definition task_id :: "json \<Rightarrow> exn + string" where
  "task_id task =
     (case task of
        JObj d \<Rightarrow> (case map_of d ''id'' of None \<Rightarrow> Inl KeyError | Some (JStr i) \<Rightarrow> Inr i | Some _ \<Rightarrow> Inl TypeError)
      | _ \<Rightarrow> Inl TypeError)"

text \<open>
  \<^verbatim>\<open>run_once\<close>. Parsing the record and reading its id stand outside the \<^verbatim>\<open>try\<close>: an
  exception there leaves \<^verbatim>\<open>run_once\<close>.
\<close>

definition run_once :: "env \<Rightarrow> world \<Rightarrow> unit result" where
  "run_once e w =
     bind (claim w) (\<lambda>claimed w1.
       case claimed of
         None \<Rightarrow> Return () w1
       | Some tpath \<Rightarrow>
           (case loads e (read_text tpath w1) of
              None \<Rightarrow> Raise JSONDecodeError w1
            | Some task \<Rightarrow>
                (let r = (case try_body e task w1 of
                            Raise x w2 \<Rightarrow> Return (False, [], exc_name e x @ '': '' @ exc_text e x) w2
                          | r' \<Rightarrow> r')
                 in bind r (\<lambda>(ok, out, err) w2.
                    (case task_id task of
                       Inl x \<Rightarrow> Raise x w2
                     | Inr i \<Rightarrow>
                         (let w3 = write_artifact [i] ''stderr.txt'' err (write_artifact [i] ''stdout.txt'' out w2)
                          in bind (finish tpath ok w3) (\<lambda>_ w4.
                             Return () (logj [(''id'', JStr i), (''ok'', JBool ok),
                                              (''latency_s'', JNum (latency_s e))] w4))))))))"

text \<open>The first \<open>n\<close> rounds of the \<^verbatim>\<open>while True: run_once()\<close> loop of \<^verbatim>\<open>worker.py\<close>.\<close>

fun worker_main :: "nat \<Rightarrow> env \<Rightarrow> world \<Rightarrow> unit result" where
  "worker_main 0 e w = Return () w"
| "worker_main (Suc n) e w = bind (run_once e w) (\<lambda>_. worker_main n e)"

section \<open>The state machine of a job record\<close>

text \<open>The file names of a state directory, and those of them that are job records.\<close>

definition names :: "world \<Rightarrow> place \<Rightarrow> string set" where
  "names w d = set (map fst (queue w d))"

definition jn :: "world \<Rightarrow> place \<Rightarrow> string set" where
  "jn w d = set (glob_json (queue w d))"

text \<open>The state directories that hold a file of the given name.\<close>

definition where_is :: "world \<Rightarrow> string \<Rightarrow> place list" where
  "where_is w n = filter (\<lambda>d. n \<in> set (map fst (queue w d))) [Inbox, Running, Done, Failed]"

text \<open>No job record name occurs twice, within a state directory or across them.\<close>

definition exclusive :: "world \<Rightarrow> bool" where
  "exclusive w = distinct (concat (map (\<lambda>d. glob_json (queue w d)) [Inbox, Running, Done, Failed]))"

datatype operation = Enqueue | Claim | Finish | Drain

text \<open>What an operation may do to the place of one job record.\<close>

fun legal :: "operation \<Rightarrow> place list \<Rightarrow> place list \<Rightarrow> bool" where
  "legal Enqueue a b = (a = b \<or> (a = [] \<and> b = [Inbox]))"
| "legal Claim a b = (a = b \<or> (a = [Inbox] \<and> b = [Running]))"
| "legal Finish a b = (a = b \<or> (a = [Running] \<and> (b = [Done] \<or> b = [Failed])))"
| "legal Drain a b = (a = b \<or> ((a = [Done] \<or> a = [Failed]) \<and> b = []))"

text \<open>
  The operations on the job store, of both implementations, as steps between worlds. An
  enqueue uses an id that no state directory holds (a fresh \<^verbatim>\<open>uuid4\<close>); a claim may work
  from any listing of record names, also a stale one; a finish is given a path that a
  claim returned.
\<close>

inductive step :: "operation \<Rightarrow> world \<Rightarrow> world \<Rightarrow> bool" where
  step_enqueue:
    "where_is w (tid @ ''.json'') = [] \<Longrightarrow> step Enqueue w (world_of (enqueue e tid prompt repo mode hint w))"
| step_enqueue_job:
    "where_is w (job_id @ ''.json'') = [] \<Longrightarrow> step Enqueue w (world_of (enqueue_job e job_id job w))"
| step_claim_from:
    "list_all (ends_with ''.json'') cands \<Longrightarrow> step Claim w (world_of (claim_from cands w))"
| step_claim: "step Claim w (world_of (claim w))"
| step_claim_job: "step Claim w (world_of (claim_job w))"
| step_finish: "ends_with ''.json'' n \<Longrightarrow> step Finish w (world_of (finish (Running, n) ok w))"
| step_finish_job: "ends_with ''.json'' n \<Longrightarrow> step Finish w (world_of (finish_job (Running, n) ok w))"
| step_drain: "step Drain w (world_of (drain_cycle e s w))"

section \<open>Concrete worlds\<close>

definition quoted :: "string \<Rightarrow> string" where
  "quoted t = [CHR 0x22] @ t @ [CHR 0x22]"

definition empty_world :: world where
  "empty_world = \<lparr>queue = (\<lambda>_. []), PATCHES = [], LOG_FILE = [], SCORE_FILE = NoFile, invoked = []\<rparr>"

text \<open>A record as \<^verbatim>\<open>util.enqueue\<close> writes it, and its text.\<close>

definition task1 :: json where
  "task1 = JObj [(''id'', JStr ''j1''), (''mode'', JStr ''code_apply''),
                 (''prompt'', JStr ''add a README''), (''repo'', JStr ''/tmp/repoX'')]"

definition task1_text :: string where
  "task1_text = ''{'' @ quoted ''id'' @ '': '' @ quoted ''j1'' @ '', '' @ quoted ''mode'' @ '': '' @
                quoted ''code_apply'' @ '', '' @ quoted ''prompt'' @ '': '' @ quoted ''add a README'' @
                '', '' @ quoted ''repo'' @ '': '' @ quoted ''/tmp/repoX'' @ ''}''"

text \<open>The same with an empty prompt and a repository that does not exist.\<close>

definition task2 :: json where
  "task2 = JObj [(''id'', JStr ''j2''), (''mode'', JStr ''code_apply''),
                 (''prompt'', JStr []), (''repo'', JStr ''/no/such/dir'')]"

definition task2_text :: string where
  "task2_text = ''{'' @ quoted ''id'' @ '': '' @ quoted ''j2'' @ '', '' @ quoted ''mode'' @ '': '' @
                quoted ''code_apply'' @ '', '' @ quoted ''prompt'' @ '': '' @ quoted [] @
                '', '' @ quoted ''repo'' @ '': '' @ quoted ''/no/such/dir'' @ ''}''"

text \<open>A record as \<^verbatim>\<open>do_POST\<close> of the service builds it.\<close>

definition job3 :: json where
  "job3 = JObj [(''id'', JStr ''j3''), (''dir'', JStr ''/tmp/repoX''),
                (''repo_key'', JStr ''repox-0a1b2c3d''), (''prompt'', JStr ''add a README'')]"

definition job3_text :: string where
  "job3_text = ''{'' @ quoted ''id'' @ '': '' @ quoted ''j3'' @ '', '' @ quoted ''dir'' @ '': '' @
               quoted ''/tmp/repoX'' @ '', '' @ quoted ''repo_key'' @ '': '' @ quoted ''repox-0a1b2c3d'' @
               '', '' @ quoted ''prompt'' @ '': '' @ quoted ''add a README'' @ ''}''"

text \<open>
  An environment: the three texts above parse to their records, \<^verbatim>\<open>/tmp/repoX\<close> is the only
  directory, there are no rule files, the agent is installed and offers the file-based
  style only; its plan call prints a plan and exits 0 after 2 seconds, its apply call
  exits 0 after 5.
\<close>

definition env1 :: env where
  "env1 = \<lparr>
     loads = (\<lambda>t. if t = task1_text then Some task1
                   else if t = task2_text then Some task2
                   else if t = job3_text then Some job3
                   else if t = ''{}'' then Some (JObj []) else None),
     dumps = (\<lambda>j. if j = task1 then task1_text
                   else if j = task2 then task2_text
                   else if j = job3 then job3_text else ''{}''),
     is_dir = (\<lambda>p. p = ''/tmp/repoX''),
     expanduser = (\<lambda>p. p),
     resolve = (\<lambda>p. p),
     sha256_hex8 = (\<lambda>p. ''0a1b2c3d''),
     slug_of = (\<lambda>p. ''repox''),
     host_rules = (\<lambda>p. []),
     agents_rules = [],
     claude_cli = Some ''/usr/local/bin/claude'',
     claude_on_path = True,
     supports_dash_p = False,
     agent = (\<lambda>i. case i of
                CodePlan r t \<Rightarrow> Exits 2 0 ''  1. Write README.md\<newline>'' []
              | CodeApply r t \<Rightarrow> Exits 5 0 ''done\<newline>'' []
              | DashP t \<Rightarrow> Exits 1 0 [] []),
     time_now = 1000,
     latency_s = 7,
     uuid4 = ''u-1'',
     exc_text = (\<lambda>x. []),
     exc_name = (\<lambda>x. case x of TimeoutExpired \<Rightarrow> ''TimeoutExpired'' | _ \<Rightarrow> ''Exception''),
     PLAN_BASE = ''Plan the work.''\<rparr>"

text \<open>Worlds with one record waiting in the inbox.\<close>

definition world1 :: world where
  "world1 = empty_world\<lparr>queue := (\<lambda>_. [])(Inbox := [(''j1.json'', task1_text)])\<rparr>"

definition world2 :: world where
  "world2 = empty_world\<lparr>queue := (\<lambda>_. [])(Inbox := [(''j2.json'', task2_text)])\<rparr>"

definition world3 :: world where
  "world3 = empty_world\<lparr>queue := (\<lambda>_. [])(Inbox := [(''j3.json'', job3_text)])\<rparr>"

text \<open>A world with a record that is no JSON ahead of a good one.\<close>

definition world4 :: world where
  "world4 = empty_world\<lparr>queue := (\<lambda>_. [])(Inbox := [(''a0.json'', ''not json''), (''j1.json'', task1_text)])\<rparr>"

text \<open>The same environment with an agent whose plan call exits 1 and whose apply call exits 0.\<close>

definition env2 :: env where
  "env2 = env1\<lparr>agent := (\<lambda>i. case i of
                CodePlan r t \<Rightarrow> Exits 2 1 [] ''cannot plan''
              | CodeApply r t \<Rightarrow> Exits 5 0 ''done\<newline>'' []
              | DashP t \<Rightarrow> Exits 1 0 [] [])\<rparr>"

text \<open>The same environment with an agent that never exits.\<close>

definition env3 :: env where
  "env3 = env1\<lparr>agent := (\<lambda>i. Never)\<rparr>"

text \<open>The world of the service after the record \<^verbatim>\<open>j3\<close> was claimed.\<close>

definition claimed3 :: world where
  "claimed3 = empty_world\<lparr>queue := (\<lambda>_. [])(Inbox := [], Running := [(''j3.json'', job3_text)])\<rparr>"

text \<open>
  A record without an id, as any program other than \<^verbatim>\<open>util.enqueue\<close> may drop it into the
  inbox, its text, an environment whose parser reads it, and a world where it waits.
\<close>

definition task5 :: json where
  "task5 = JObj [(''mode'', JStr ''code_apply''), (''prompt'', JStr ''add a README''),
                 (''repo'', JStr ''/tmp/repoX'')]"

definition task5_text :: string where
  "task5_text = ''{'' @ quoted ''mode'' @ '': '' @ quoted ''code_apply'' @ '', '' @ quoted ''prompt'' @
                '': '' @ quoted ''add a README'' @ '', '' @ quoted ''repo'' @ '': '' @
                quoted ''/tmp/repoX'' @ ''}''"

definition env5 :: env where
  "env5 = env1\<lparr>loads := (\<lambda>t. if t = task5_text then Some task5 else loads env1 t)\<rparr>"

definition world5 :: world where
  "world5 = empty_world\<lparr>queue := (\<lambda>_. [])(Inbox := [(''j5.json'', task5_text)])\<rparr>"

text \<open>
  A fresh tree: no record anywhere and no directory \<^verbatim>\<open>.agents/scores\<close> yet, as before the
  first call of \<^verbatim>\<open>util.ensure_dirs\<close>.
\<close>

definition fresh_tree :: world where
  "fresh_tree = empty_world\<lparr>SCORE_FILE := NoDirectory\<rparr>"

section \<open>The job store keeps every record in one place\<close>

lemma ensure_dirs_proj:
  "queue (ensure_dirs w) = queue w"
  "invoked (ensure_dirs w) = invoked w"
  "LOG_FILE (ensure_dirs w) = LOG_FILE w"
  "PATCHES (ensure_dirs w) = PATCHES w"
  by (simp_all add: ensure_dirs_def split: snapshot.splits)

lemma ensure_dirs_places:
  "where_is (ensure_dirs w) n = where_is w n"
  "exclusive (ensure_dirs w) = exclusive w"
  "names (ensure_dirs w) d = names w d"
  by (simp_all add: where_is_def exclusive_def names_def ensure_dirs_proj)

lemma jn_names: "jn w d = {n \<in> names w d. ends_with ''.json'' n}"
  by (auto simp: jn_def names_def glob_json_def)

lemma place_UNIV: "(UNIV :: place set) = {Inbox, Running, Done, Failed}"
  by (auto intro: place.exhaust)

lemma exclusive_iff:
  "exclusive w \<longleftrightarrow> (\<forall>d. distinct (glob_json (queue w d))) \<and> (\<forall>d d'. d \<noteq> d' \<longrightarrow> jn w d \<inter> jn w d' = {})"
proof -
  have all4: "\<And>P. (\<forall>d::place. P d) \<longleftrightarrow> P Inbox \<and> P Running \<and> P Done \<and> P Failed"
    by (metis place.exhaust)
  show ?thesis
    unfolding exclusive_def jn_def all4 by (simp add: Int_Un_distrib Int_Un_distrib2) blast
qed

lemma where_is_iff: "d \<in> set (where_is w n) \<longleftrightarrow> n \<in> names w d"
  unfolding where_is_def names_def by (cases d) auto

lemma distinct_where_is: "distinct (where_is w n)"
  by (simp add: where_is_def)

lemma where_is_cong: "(\<And>d. n \<in> names w' d \<longleftrightarrow> n \<in> names w d) \<Longrightarrow> where_is w' n = where_is w n"
  by (simp add: where_is_def names_def)

lemma where_is_single:
  assumes "exclusive w" "ends_with ''.json'' n" "n \<in> names w d"
  shows "where_is w n = [d]"
proof -
  have other: "\<And>d'. d' \<noteq> d \<Longrightarrow> n \<notin> names w d'"
    using assms unfolding exclusive_iff jn_names by blast
  show ?thesis
    using assms(3) other unfolding where_is_def names_def by (cases d) auto
qed

lemma where_is_empty: "(\<And>d. n \<notin> names w d) \<Longrightarrow> where_is w n = []"
  by (simp add: where_is_def names_def)

lemma where_is_le1:
  assumes "exclusive w" "ends_with ''.json'' n"
  shows "length (where_is w n) \<le> 1"
proof (cases "\<exists>d. n \<in> names w d")
  case True
  then obtain d where "n \<in> names w d" by blast
  then show ?thesis using where_is_single[OF assms] by simp
next
  case False
  then show ?thesis by (simp add: where_is_empty)
qed


lemma names_unlink_path:
  "names (unlink_path p w) d = (if d = fst p then names w d - {snd p} else names w d)"
  by (auto simp: names_def unlink_path_def unlink_def)

lemma names_write_text:
  "names (write_text p c w) d = (if d = fst p then insert (snd p) (names w d) else names w d)"
  by (auto simp: names_def write_text_def write_file_def)

lemma glob_json_unlink: "glob_json (unlink n d) = filter (\<lambda>k. k \<noteq> n) (glob_json d)"
  by (induction d) (auto simp: glob_json_def unlink_def)

lemma glob_json_write_file:
  "glob_json (write_file n c d) =
     (if ends_with ''.json'' n then [n] else []) @ filter (\<lambda>k. k \<noteq> n) (glob_json d)"
  using glob_json_unlink[of n d] by (simp add: glob_json_def write_file_def unlink_def)

lemma distinct_glob_unlink_path:
  "distinct (glob_json (queue w d)) \<Longrightarrow> distinct (glob_json (queue (unlink_path p w) d))"
  by (auto simp: unlink_path_def glob_json_unlink)

lemma distinct_glob_write_text:
  "distinct (glob_json (queue w d)) \<Longrightarrow> distinct (glob_json (queue (write_text p c w) d))"
  by (auto simp: write_text_def glob_json_write_file)

lemma not_json_tmp: "\<not> ends_with ''.json'' (x @ ''.tmp'')"
proof
  assume "ends_with ''.json'' (x @ ''.tmp'')"
  then have "drop (length (x @ ''.tmp'') - 5) (x @ ''.tmp'') = ''.json''"
    by (simp add: ends_with_def)
  then have "last (drop (length (x @ ''.tmp'') - 5) (x @ ''.tmp'')) = CHR ''n''"
    by simp
  then show False by (simp add: last_drop)
qed

lemma json_suffix: "ends_with ''.json'' (x @ ''.json'')"
  by (simp add: ends_with_def)

text \<open>A world whose names differ from another's by moving one job name.\<close>

lemma exclusive_move:
  assumes ex: "exclusive w" and j: "ends_with ''.json'' n" and a: "n \<in> names w a" and ab: "a \<noteq> b"
    and dis: "\<And>d. distinct (glob_json (queue w d)) \<Longrightarrow> distinct (glob_json (queue w' d))"
    and nm: "\<And>d. names w' d = (if d = b then insert n (names w b) else if d = a then names w a - {n} else names w d)"
  shows "exclusive w'"
proof -
  have only: "\<And>d. d \<noteq> a \<Longrightarrow> n \<notin> names w d"
    using ex j a unfolding exclusive_iff jn_names by blast
  have disj: "\<And>d d'. d \<noteq> d' \<Longrightarrow> jn w d \<inter> jn w d' = {}"
    using ex unfolding exclusive_iff by blast
  have "\<And>d d'. d \<noteq> d' \<Longrightarrow> jn w' d \<inter> jn w' d' = {}"
  proof -
    fix d d' :: place assume dd: "d \<noteq> d'"
    have "jn w d \<inter> jn w d' = {}" using disj dd by blast
    then show "jn w' d \<inter> jn w' d' = {}"
      using only[of d] only[of d'] dd ab unfolding jn_names nm by (auto split: if_splits)
  qed
  then show ?thesis
    using ex dis unfolding exclusive_iff by blast
qed

lemma os_replace_move:
  assumes "map_of (queue w a) n = Some c"
  shows "os_replace (a, n) (b, n) w = Return () (write_text (b, n) c (unlink_path (a, n) w))"
  using assms by (simp add: os_replace_def)

lemma os_replace_missing:
  assumes "map_of (queue w a) n = None"
  shows "os_replace (a, n) dst w = Raise FileNotFoundError w"
  using assms by (simp add: os_replace_def)

lemma map_of_names: "map_of (queue w a) n = None \<longleftrightarrow> n \<notin> names w a"
  by (simp add: names_def map_of_eq_None_iff)

lemma moved_names:
  assumes "a \<noteq> b"
  shows "names (write_text (b, n) c (unlink_path (a, n) w)) d =
         (if d = b then insert n (names w b) else if d = a then names w a - {n} else names w d)"
  using assms by (simp add: names_write_text names_unlink_path)

lemma moved_exclusive:
  assumes "exclusive w" "ends_with ''.json'' n" "n \<in> names w a" "a \<noteq> b"
  shows "exclusive (write_text (b, n) c (unlink_path (a, n) w))"
  by (rule exclusive_move[OF assms])
     (simp_all add: distinct_glob_write_text distinct_glob_unlink_path moved_names[OF assms(4)])

lemma moved_where_is:
  fixes c :: string
  assumes "exclusive w" "ends_with ''.json'' n" "n \<in> names w a" "a \<noteq> b"
    and w': "w' = write_text (b, n) c (unlink_path (a, n) w)"
  shows "where_is w n = [a] \<and> where_is w' n = [b] \<and> (\<forall>m. m \<noteq> n \<longrightarrow> where_is w' m = where_is w m)"
proof -
  have 1: "where_is w n = [a]" by (rule where_is_single[OF assms(1-3)])
  have ex': "exclusive w'" unfolding w' by (rule moved_exclusive[OF assms(1-4)])
  have "n \<in> names w' b" unfolding w' by (simp add: moved_names[OF assms(4)])
  then have 2: "where_is w' n = [b]" by (rule where_is_single[OF ex' assms(2)])
  have 3: "where_is w' m = where_is w m" if "m \<noteq> n" for m
    using that unfolding w' by (intro where_is_cong) (auto simp: moved_names[OF assms(4)])
  show ?thesis using 1 2 3 by blast
qed


text \<open>
  The temporary file of \<^verbatim>\<open>atomic_write_json\<close> is no job record: while it exists, between
  the write and the rename, the records are as before.
\<close>

lemma tmp_file_is_no_record:
  "jn (write_text (d, x @ ''.tmp'') c w) d' = jn w d' \<and>
   exclusive (write_text (d, x @ ''.tmp'') c w) = exclusive w"
proof -
  have g: "glob_json (queue (write_text (d, x @ ''.tmp'') c w) d') = filter (\<lambda>k. k \<noteq> x @ ''.tmp'') (glob_json (queue w d'))"
    if "d' = d" for d'
    using that not_json_tmp[of x] by (simp add: write_text_def glob_json_write_file)
  have f: "filter (\<lambda>k. k \<noteq> x @ ''.tmp'') (glob_json dir) = glob_json dir" for dir
    using not_json_tmp[of x] by (auto simp: glob_json_def intro!: filter_cong)
  have q: "glob_json (queue (write_text (d, x @ ''.tmp'') c w) d') = glob_json (queue w d')" for d'
    using g[of d'] f by (cases "d' = d") (simp_all add: write_text_def)
  show ?thesis by (simp add: jn_def exclusive_def q)
qed

subsection \<open>Claim\<close>

lemma claim_from_legal:
  assumes "exclusive w" "list_all (ends_with ''.json'') cands"
  shows "exclusive (world_of (claim_from cands w)) \<and>
         (\<forall>n. legal Claim (where_is w n) (where_is (world_of (claim_from cands w)) n))"
  using assms
proof (induction cands)
  case Nil
  then show ?case by simp
next
  case (Cons p ps)
  show ?case
  proof (cases "map_of (queue w Inbox) p")
    case None
    then show ?thesis using Cons by (simp add: os_replace_missing)
  next
    case (Some c)
    let ?w' = "write_text (Running, p) c (unlink_path (Inbox, p) w)"
    have j: "ends_with ''.json'' p" using Cons.prems(2) by simp
    have inb: "p \<in> names w Inbox" using Some map_of_names[of w Inbox p] by simp
    have r: "claim_from (p # ps) w = Return (Some (Running, p)) ?w'"
      by (simp add: os_replace_move[OF Some])
    have ex: "exclusive ?w'" by (rule moved_exclusive[OF Cons.prems(1) j inb]) simp
    have mv: "where_is w p = [Inbox] \<and> where_is ?w' p = [Running] \<and> (\<forall>m. m \<noteq> p \<longrightarrow> where_is ?w' m = where_is w m)"
      by (rule moved_where_is[OF Cons.prems(1) j inb _ refl]) simp
    have "legal Claim (where_is w n) (where_is ?w' n)" for n
      using mv by (cases "n = p") auto
    then show ?thesis using ex r by simp
  qed
qed

lemma glob_all_json: "list_all (ends_with ''.json'') (sort (glob_json d))"
  by (simp add: list_all_iff glob_json_def)

subsection \<open>Finish\<close>

lemma finish_move_legal:
  assumes ex: "exclusive w" and j: "ends_with ''.json'' n" and b: "b = Done \<or> b = Failed"
  shows "exclusive (world_of (os_replace (Running, n) (b, n) w)) \<and>
         (\<forall>m. legal Finish (where_is w m) (where_is (world_of (os_replace (Running, n) (b, n) w)) m))"
proof (cases "map_of (queue w Running) n")
  case None
  then show ?thesis using ex by (simp add: os_replace_missing)
next
  case (Some c)
  let ?w' = "write_text (b, n) c (unlink_path (Running, n) w)"
  have ne: "Running \<noteq> b" using b by auto
  have run: "n \<in> names w Running" using Some map_of_names[of w Running n] by simp
  have ex': "exclusive ?w'" by (rule moved_exclusive[OF ex j run ne])
  have mv: "where_is w n = [Running] \<and> where_is ?w' n = [b] \<and> (\<forall>m. m \<noteq> n \<longrightarrow> where_is ?w' m = where_is w m)"
    by (rule moved_where_is[OF ex j run ne refl])
  have "legal Finish (where_is w m) (where_is ?w' m)" for m
    using mv b by (cases "m = n") auto
  then show ?thesis using ex' by (simp add: os_replace_move[OF Some])
qed

lemma world_of_bind_Return: "world_of (bind r (\<lambda>_. Return x)) = world_of r"
  by (cases r) (simp_all add: bind_def)

subsection \<open>Enqueue\<close>

lemma atomic_write_fresh:
  fixes e :: env and payload :: json
  assumes ex: "exclusive w" and fresh: "where_is w (x @ ''.json'') = []"
  defines "w' \<equiv> world_of (atomic_write_json e (Inbox, x @ ''.json'') payload w)"
  shows "exclusive w' \<and> (\<forall>m. ends_with ''.json'' m \<longrightarrow> legal Enqueue (where_is w m) (where_is w' m))"
proof -
  let ?n = "x @ ''.json''" and ?t = "x @ ''.json.tmp''"
  let ?w1 = "write_text (Inbox, ?t) (dumps e payload) w"
  have w': "w' = write_text (Inbox, ?n) (dumps e payload) (unlink_path (Inbox, ?t) ?w1)"
    unfolding w'_def by (simp add: atomic_write_json_def Let_def os_replace_def write_text_def write_file_def)
  have nowhere: "?n \<notin> names w d" for d
    using fresh where_is_iff[of d w ?n] by simp
  have nm: "names w' d = (if d = Inbox then insert ?n (names w Inbox - {?t}) else names w d)" for d
    unfolding w' by (auto simp: names_write_text names_unlink_path)
  have tj: "\<not> ends_with ''.json'' ?t" using not_json_tmp[of "x @ ''.json''"] by simp
  have jn': "jn w' d = (if d = Inbox then insert ?n (jn w Inbox) else jn w d)" for d
    unfolding jn_names nm using tj json_suffix[of x] by auto
  have dis: "distinct (glob_json (queue w' d))" for d
    using ex unfolding w' exclusive_iff
    by (intro distinct_glob_write_text distinct_glob_unlink_path) blast
  have nj: "?n \<notin> jn w d" for d using nowhere[of d] by (simp add: jn_names)
  have disj: "jn w d \<inter> jn w d' = {}" if "d \<noteq> d'" for d d'
    using ex that unfolding exclusive_iff by blast
  have "jn w' d \<inter> jn w' d' = {}" if "d \<noteq> d'" for d d'
    using disj[OF that] nj[of d] nj[of d'] that unfolding jn' by (auto split: if_splits)
  then have ex': "exclusive w'" using dis unfolding exclusive_iff by blast
  have "legal Enqueue (where_is w m) (where_is w' m)" if jm: "ends_with ''.json'' m" for m
  proof (cases "m = ?n")
    case True
    have "?n \<in> names w' Inbox" by (simp add: nm)
    then have "where_is w' ?n = [Inbox]" by (rule where_is_single[OF ex' json_suffix])
    then show ?thesis using True fresh by simp
  next
    case False
    have "m \<noteq> ?t" using jm tj by auto
    then have "where_is w' m = where_is w m"
      using False by (intro where_is_cong) (auto simp: nm)
    then show ?thesis by simp
  qed
  then show ?thesis using ex' by blast
qed

subsection \<open>Drain\<close>

lemma count_and_unlink_names:
  "names (world_of (count_and_unlink d k ps s w)) d' \<subseteq> names w d' \<and>
   (d' \<noteq> d \<longrightarrow> names (world_of (count_and_unlink d k ps s w)) d' = names w d') \<and>
   (distinct (glob_json (queue w d')) \<longrightarrow> distinct (glob_json (queue (world_of (count_and_unlink d k ps s w)) d')))"
proof (induction ps arbitrary: s w)
  case Nil
  then show ?case by simp
next
  case (Cons p ps)
  show ?case
  proof (cases "incr k s")
    case (Inl x)
    then show ?thesis by simp
  next
    case (Inr s')
    have "names (unlink_path (d, p) w) d' \<subseteq> names w d'"
      "d' \<noteq> d \<Longrightarrow> names (unlink_path (d, p) w) d' = names w d'"
      by (auto simp: names_unlink_path)
    then show ?thesis
      using Cons.IH[of s' "unlink_path (d, p) w"] Inr distinct_glob_unlink_path[of w d' "(d, p)"]
      by auto
  qed
qed

lemma queue_save_score: "queue (world_of (save_score e s w)) = queue w"
  by (simp add: save_score_def split: snapshot.splits)

lemma names_save_score: "names (world_of (save_score e s w)) d = names w d"
  by (simp add: names_def queue_save_score)

lemma drain_cycle_names:
  fixes e :: env and s :: json and w :: world
  defines "w' \<equiv> world_of (drain_cycle e s w)"
  shows "names w' d \<subseteq> names w d \<and> (d = Inbox \<or> d = Running \<longrightarrow> names w' d = names w d) \<and>
         (distinct (glob_json (queue w d)) \<longrightarrow> distinct (glob_json (queue w' d)))"
proof (cases "count_and_unlink Done ''pass'' (glob_json (queue w Done)) s w")
  case (Return s1 w1)
  note c1 = count_and_unlink_names[of Done "''pass''" "glob_json (queue w Done)" s w d, unfolded Return, simplified]
  show ?thesis
  proof (cases "count_and_unlink Failed ''fail'' (glob_json (queue w1 Failed)) s1 w1")
    case (Return s2 w2)
    note c2 = count_and_unlink_names[of Failed "''fail''" "glob_json (queue w1 Failed)" s1 w1 d, unfolded Return, simplified]
    have "w' = world_of (save_score e s2 w2)"
      unfolding w'_def drain_cycle_def
      by (simp add: bind_def \<open>count_and_unlink Done _ _ s w = _\<close> Return split: result.splits)
    then show ?thesis using c1 c2 by (auto simp: names_save_score queue_save_score)
  next
    case (Raise x w2)
    note c2 = count_and_unlink_names[of Failed "''fail''" "glob_json (queue w1 Failed)" s1 w1 d, unfolded Raise, simplified]
    have "w' = w2"
      unfolding w'_def drain_cycle_def by (simp add: bind_def \<open>count_and_unlink Done _ _ s w = _\<close> Raise)
    then show ?thesis using c1 c2 by auto
  next
    case (Hang w2)
    note c2 = count_and_unlink_names[of Failed "''fail''" "glob_json (queue w1 Failed)" s1 w1 d, unfolded Hang, simplified]
    have "w' = w2"
      unfolding w'_def drain_cycle_def by (simp add: bind_def \<open>count_and_unlink Done _ _ s w = _\<close> Hang)
    then show ?thesis using c1 c2 by auto
  qed
next
  case (Raise x w1)
  note c1 = count_and_unlink_names[of Done "''pass''" "glob_json (queue w Done)" s w d, unfolded Raise, simplified]
  have "w' = w1" unfolding w'_def drain_cycle_def by (simp add: bind_def Raise)
  then show ?thesis using c1 by auto
next
  case (Hang w1)
  note c1 = count_and_unlink_names[of Done "''pass''" "glob_json (queue w Done)" s w d, unfolded Hang, simplified]
  have "w' = w1" unfolding w'_def drain_cycle_def by (simp add: bind_def Hang)
  then show ?thesis using c1 by auto
qed

lemma drain_legal:
  fixes e :: env and s :: json
  assumes ex: "exclusive w"
  defines "w' \<equiv> world_of (drain_cycle e s w)"
  shows "exclusive w' \<and> (\<forall>m. ends_with ''.json'' m \<longrightarrow> legal Drain (where_is w m) (where_is w' m))"
proof -
  have sub: "names w' d \<subseteq> names w d" for d
    unfolding w'_def using drain_cycle_names[of e s w d] by blast
  have same: "names w' d = names w d" if "d = Inbox \<or> d = Running" for d
    unfolding w'_def using drain_cycle_names[of e s w d] that by blast
  have dis: "distinct (glob_json (queue w' d))" for d
    unfolding w'_def using drain_cycle_names[of e s w d] ex unfolding exclusive_iff by blast
  have "jn w' d \<inter> jn w' d' = {}" if "d \<noteq> d'" for d d'
  proof -
    have "jn w d \<inter> jn w d' = {}" using ex that unfolding exclusive_iff by blast
    then show ?thesis using sub[of d] sub[of d'] unfolding jn_names by blast
  qed
  then have ex': "exclusive w'" using dis unfolding exclusive_iff by blast
  have "legal Drain (where_is w m) (where_is w' m)" if jm: "ends_with ''.json'' m" for m
  proof (cases "\<exists>d. m \<in> names w' d")
    case True
    then obtain d where d: "m \<in> names w' d" by blast
    then have "m \<in> names w d" using sub by blast
    then show ?thesis using where_is_single[OF ex jm] where_is_single[OF ex' jm d] by simp
  next
    case False
    then have e': "where_is w' m = []" by (simp add: where_is_empty)
    show ?thesis
    proof (cases "\<exists>d. m \<in> names w d")
      case True
      then obtain d where d: "m \<in> names w d" by blast
      have "d = Done \<or> d = Failed" using d False same[of d] by (cases d) auto
      then show ?thesis using where_is_single[OF ex jm d] e' by auto
    next
      case False
      then show ?thesis using e' by (simp add: where_is_empty)
    qed
  qed
  then show ?thesis using ex' by blast
qed

text \<open>
  Claim C1. Starting from a world in which no job record name occurs twice, every
  operation on the job store (enqueue with a fresh id, claim, finish, one drain cycle, of
  either implementation) leads to such a world again, so a record is in at most one state
  directory, and exactly one while it exists. The place of every record changes only as
  the operation allows: an enqueue puts a new record into the inbox, a claim moves a
  record from inbox to running, a finish moves one from running to done or failed, and
  only the drain takes records away, from done and failed. Each operation changes the
  directories by atomic renames and unlinks, so under any interleaving of workers, ingress
  and drain the worlds seen are those reached by such steps.
\<close>

theorem job_state_machine:
  assumes "exclusive w" and "step op w w'"
  shows "exclusive w' \<and>
         (\<forall>n. ends_with ''.json'' n \<longrightarrow>
              length (where_is w' n) \<le> 1 \<and> legal op (where_is w n) (where_is w' n))"
proof -
  have main: "exclusive w' \<and> (\<forall>n. ends_with ''.json'' n \<longrightarrow> legal op (where_is w n) (where_is w' n))"
    using assms(2,1)
  proof (induction rule: step.induct)
    case (step_enqueue w tid e prompt repo mode hint)
    then show ?case
      using atomic_write_fresh[of "ensure_dirs w" tid e]
      by (simp add: enqueue_def Let_def world_of_bind_Return ensure_dirs_places)
  next
    case (step_enqueue_job w job_id e job)
    then show ?case
      using atomic_write_fresh[of w job_id e]
      by (simp add: enqueue_job_def Let_def world_of_bind_Return)
  next
    case (step_claim_from cands w)
    then show ?case using claim_from_legal by blast
  next
    case (step_claim w)
    then show ?case
      using claim_from_legal[of "ensure_dirs w", OF _ glob_all_json]
      by (simp add: claim_def ensure_dirs_places)
  next
    case (step_claim_job w)
    then show ?case using claim_from_legal[OF _ glob_all_json] by (simp add: claim_job_def)
  next
    case (step_finish n w ok)
    then show ?case
      using finish_move_legal[of w n "if ok then Done else Failed"]
      by (simp add: finish_def Let_def world_of_bind_Return)
  next
    case (step_finish_job n w ok)
    then show ?case
      using finish_move_legal[of w n "if ok then Done else Failed"]
      by (simp add: finish_job_def Let_def)
  next
    case (step_drain w e s)
    then show ?case using drain_legal by blast
  qed
  then show ?thesis using where_is_le1 by blast
qed


lemma claim_world1:
  "claim world1 = Return (Some (Running, ''j1.json''))
     (empty_world\<lparr>queue := (\<lambda>_. [])(Inbox := [], Running := [(''j1.json'', task1_text)])\<rparr>)"
  by (simp add: claim_def ensure_dirs_def world1_def empty_world_def glob_json_def ends_with_def
      os_replace_def write_text_def unlink_path_def write_file_def unlink_def fun_upd_twist)

theorem job_state_machine_witness:
  "exclusive world1 \<and> step Claim world1 (world_of (claim world1)) \<and>
   exclusive (world_of (claim world1)) \<and>
   length (where_is (world_of (claim world1)) ''j1.json'') \<le> 1 \<and>
   legal Claim (where_is world1 ''j1.json'') (where_is (world_of (claim world1)) ''j1.json'') \<and>
   where_is world1 ''j1.json'' = [Inbox] \<and>
   where_is (world_of (claim world1)) ''j1.json'' = [Running]"
proof -
  have ex: "exclusive world1"
    by (simp add: exclusive_def world1_def empty_world_def glob_json_def ends_with_def)
  have st: "step Claim world1 (world_of (claim world1))" by (rule step_claim)
  have j: "ends_with ''.json'' ''j1.json''" by (simp add: ends_with_def)
  have a: "where_is world1 ''j1.json'' = [Inbox]"
    by (simp add: where_is_def world1_def empty_world_def)
  have b: "where_is (world_of (claim world1)) ''j1.json'' = [Running]"
    by (simp add: claim_world1 where_is_def empty_world_def)
  show ?thesis using job_state_machine[OF ex st] ex st j a b by blast
qed

subsection \<open>The scoreboard\<close>

lemma incr_num: "map_of kvs k = Some (JNum x) \<Longrightarrow> incr k (JObj kvs) = Inr (JObj (dict_set k (JNum (x + 1)) kvs))"
  by (simp add: incr_def)

lemma map_of_dict_set: "map_of (dict_set k v kvs) k' = (if k' = k then Some v else map_of kvs k')"
  by (induction kvs) auto

lemma dict_set_twice: "dict_set k v (dict_set k v' kvs) = dict_set k v kvs"
  by (induction kvs) auto

lemma count_num:
  "map_of kvs k = Some (JNum x) \<Longrightarrow>
   count_and_unlink d k ps (JObj kvs) w =
     Return (JObj (if ps = [] then kvs else dict_set k (JNum (x + real (length ps))) kvs)) (foldl (\<lambda>w p. unlink_path (d, p) w) w ps)"
proof (induction ps arbitrary: kvs x w)
  case Nil
  then show ?case by simp
next
  case (Cons p ps)
  have m: "map_of (dict_set k (JNum (x + 1)) kvs) k = Some (JNum (x + 1))"
    by (simp add: map_of_dict_set)
  show ?case
    using Cons.prems Cons.IH[OF m, of "unlink_path (d, p) w"]
    by (cases "ps = []") (simp_all add: incr_num dict_set_twice algebra_simps)
qed


text \<open>
  Claim C9. A drain cycle that finds no record in done and none in failed leaves the
  scoreboard as it was given, with the pass and fail counters as they were: where the
  directory of the snapshot exists the cycle returns that scoreboard, rewrites the
  snapshot file with it and changes nothing else, so a snapshot that already holds it is
  left as it is; where the directory is absent the write raises and nothing at all has
  changed.
\<close>

theorem drain_empty_unchanged:
  assumes "glob_json (queue w Done) = []" and "glob_json (queue w Failed) = []"
  shows "drain_cycle e s w =
           (case SCORE_FILE w of
              NoDirectory \<Rightarrow> Raise FileNotFoundError w
            | _ \<Rightarrow> Return s (w\<lparr>SCORE_FILE := File (dumps e s)\<rparr>)) \<and>
         queue (world_of (drain_cycle e s w)) = queue w \<and>
         (SCORE_FILE w = File (dumps e s) \<longrightarrow> world_of (drain_cycle e s w) = w)"
  using assms by (simp add: drain_cycle_def bind_def save_score_def split: snapshot.splits)

theorem drain_empty_unchanged_witness:
  "glob_json (queue world1 Done) = [] \<and> glob_json (queue world1 Failed) = [] \<and>
   drain_cycle env1 zero_score world1 = Return zero_score (world1\<lparr>SCORE_FILE := File ''{}''\<rparr>) \<and>
   queue (world_of (drain_cycle env1 zero_score world1)) = queue world1"
proof -
  have d: "glob_json (queue world1 Done) = []" and f: "glob_json (queue world1 Failed) = []"
    by (simp_all add: world1_def empty_world_def glob_json_def)
  have n: "SCORE_FILE world1 = NoFile"
    by (simp add: world1_def empty_world_def)
  have j: "dumps env1 zero_score = ''{}''"
    by (simp add: env1_def zero_score_def task1_def task2_def job3_def)
  show ?thesis using drain_empty_unchanged[OF d f, of env1 zero_score] d f n j by simp
qed

lemma foldl_unlink_SCORE: "SCORE_FILE (foldl (\<lambda>w p. unlink_path (d, p) w) w ps) = SCORE_FILE w"
  by (induction ps arbitrary: w) (simp_all add: unlink_path_def)

lemma queue_foldl_unlink_other:
  "d' \<noteq> d \<Longrightarrow> queue (foldl (\<lambda>w p. unlink_path (d, p) w) w ps) d' = queue w d'"
  by (induction ps arbitrary: w) (simp_all add: unlink_path_def)

lemma count_pass_from_zero:
  "count_and_unlink Done ''pass'' ps (JObj [(''pass'', JNum 0), (''fail'', JNum 0)]) w =
     Return (JObj [(''pass'', JNum (real (length ps))), (''fail'', JNum 0)])
            (foldl (\<lambda>w p. unlink_path (Done, p) w) w ps)"
  using count_num[of "[(''pass'', JNum 0), (''fail'', JNum 0)]" "''pass''" 0 Done ps w]
  by (cases "ps = []") simp_all

lemma count_fail_from_zero:
  "count_and_unlink Failed ''fail'' ps (JObj [(''pass'', JNum a), (''fail'', JNum 0)]) w =
     Return (JObj [(''pass'', JNum a), (''fail'', JNum (real (length ps)))])
            (foldl (\<lambda>w p. unlink_path (Failed, p) w) w ps)"
  using count_num[of "[(''pass'', JNum a), (''fail'', JNum 0)]" "''fail''" 0 Failed ps w]
  by (cases "ps = []") simp_all

text \<open>
  The restart of the scoreboard where the directory of the snapshot exists: when the file
  is missing there, or does not parse, \<^verbatim>\<open>load_score\<close> gives the scoreboard with both counters
  0 and raises nothing; the next drain cycle counts from there and overwrites the snapshot
  with the new counters, whatever the file held.
\<close>

theorem load_score_restart:
  assumes "SCORE_FILE w = NoFile \<or> (\<exists>txt. SCORE_FILE w = File txt \<and> loads e txt = None)"
  shows "load_score e w = JObj [(''pass'', JNum 0), (''fail'', JNum 0)] \<and>
         (\<exists>w'. drain_cycle e (load_score e w) w =
                  Return (JObj [(''pass'', JNum (real (length (glob_json (queue w Done))))),
                                (''fail'', JNum (real (length (glob_json (queue w Failed)))))]) w' \<and>
               SCORE_FILE w' =
                  File (dumps e (JObj [(''pass'', JNum (real (length (glob_json (queue w Done))))),
                                       (''fail'', JNum (real (length (glob_json (queue w Failed)))))])))"
proof -
  have z: "load_score e w = JObj [(''pass'', JNum 0), (''fail'', JNum 0)]"
    using assms by (auto simp: load_score_def zero_score_def)
  have "queue (foldl (\<lambda>w p. unlink_path (Done, p) w) w (glob_json (queue w Done))) Failed = queue w Failed"
    by (rule queue_foldl_unlink_other) simp
  moreover have "SCORE_FILE w \<noteq> NoDirectory"
    using assms by auto
  ultimately show ?thesis
    unfolding z drain_cycle_def
    by (simp add: count_pass_from_zero count_fail_from_zero bind_def save_score_def
        foldl_unlink_SCORE split: snapshot.splits)
qed

theorem load_score_restart_witness:
  "(SCORE_FILE (world1\<lparr>SCORE_FILE := File ''pass=41''\<rparr>) = NoFile \<or>
     (\<exists>txt. SCORE_FILE (world1\<lparr>SCORE_FILE := File ''pass=41''\<rparr>) = File txt \<and> loads env1 txt = None)) \<and>
   load_score env1 (world1\<lparr>SCORE_FILE := File ''pass=41''\<rparr>) = JObj [(''pass'', JNum 0), (''fail'', JNum 0)] \<and>
   (\<exists>w'. drain_cycle env1 (load_score env1 (world1\<lparr>SCORE_FILE := File ''pass=41''\<rparr>)) (world1\<lparr>SCORE_FILE := File ''pass=41''\<rparr>) =
            Return (JObj [(''pass'', JNum 0), (''fail'', JNum 0)]) w' \<and> SCORE_FILE w' = File ''{}'')"
proof -
  let ?w = "world1\<lparr>SCORE_FILE := File ''pass=41''\<rparr>"
  have l: "loads env1 ''pass=41'' = None"
    by (simp add: env1_def task1_text_def task2_text_def job3_text_def quoted_def)
  have h: "SCORE_FILE ?w = NoFile \<or> (\<exists>txt. SCORE_FILE ?w = File txt \<and> loads env1 txt = None)"
    using l by simp
  have g: "glob_json (queue ?w Done) = []" "glob_json (queue ?w Failed) = []"
    by (simp_all add: world1_def empty_world_def glob_json_def)
  have d: "dumps env1 (JObj [(''pass'', JNum 0), (''fail'', JNum 0)]) = ''{}''"
    by (simp add: env1_def task1_def task2_def job3_def)
  note t = load_score_restart[OF h]
  have z: "load_score env1 ?w = JObj [(''pass'', JNum 0), (''fail'', JNum 0)]"
    using t by (rule conjunct1)
  obtain w' where
    "drain_cycle env1 (load_score env1 ?w) ?w =
       Return (JObj [(''pass'', JNum (real (length (glob_json (queue ?w Done))))),
                     (''fail'', JNum (real (length (glob_json (queue ?w Failed)))))]) w'"
    "SCORE_FILE w' =
       File (dumps env1 (JObj [(''pass'', JNum (real (length (glob_json (queue ?w Done))))),
                               (''fail'', JNum (real (length (glob_json (queue ?w Failed)))))]))"
    using t by blast
  then have "drain_cycle env1 (load_score env1 ?w) ?w = Return (JObj [(''pass'', JNum 0), (''fail'', JNum 0)]) w'"
    and "SCORE_FILE w' = File ''{}''"
    using g d by simp_all
  then show ?thesis using h z by blast
qed

text \<open>
  Claim C10, on \<^verbatim>\<open>judge.py\<close> started in a fresh tree: the snapshot is missing because its
  directory \<^verbatim>\<open>.agents/scores\<close> is, \<^verbatim>\<open>load_score\<close> gives the scoreboard with both counters 0,
  and the first cycle ends in \<^verbatim>\<open>FileNotFoundError\<close> at \<^verbatim>\<open>save_score\<close>: the drain stops and no
  snapshot is written, for \<^verbatim>\<open>judge.py\<close> never creates the directory. After
  \<^verbatim>\<open>util.ensure_dirs\<close>, which every writer of \<^verbatim>\<open>util.py\<close> calls first, the same cycle returns
  and writes the snapshot.
\<close>

theorem judge_stops_in_fresh_tree:
  "SCORE_FILE fresh_tree = NoDirectory \<and>
   load_score env1 fresh_tree = JObj [(''pass'', JNum 0), (''fail'', JNum 0)] \<and>
   (case drain_cycle env1 (load_score env1 fresh_tree) fresh_tree of
      Raise x w \<Rightarrow> x = FileNotFoundError \<and> SCORE_FILE w = NoDirectory
    | _ \<Rightarrow> False) \<and>
   (case drain_cycle env1 (load_score env1 fresh_tree) (ensure_dirs fresh_tree) of
      Return s w \<Rightarrow> s = JObj [(''pass'', JNum 0), (''fail'', JNum 0)] \<and> SCORE_FILE w = File ''{}''
    | _ \<Rightarrow> False)"
  by code_simp

section \<open>Where the generic worker and the service part ways\<close>

text \<open>
  Claim C2, on \<^verbatim>\<open>worker.py\<close> with \<^verbatim>\<open>util.claude_plan_apply\<close>: the record \<^verbatim>\<open>j1\<close> is claimed, the
  plan call exits with status 1, and still the apply call is made and the job ends in
  done, because \<^verbatim>\<open>claude_plan_apply\<close> runs both calls and returns the status of the second.
\<close>

theorem util_apply_runs_after_failed_plan:
  "(case run_once env2 world1 of
      Return u w \<Rightarrow> map fst (invoked w) = [Plan, Apply] \<and> where_is w ''j1.json'' = [Done]
    | _ \<Rightarrow> False)"
  by code_simp

text \<open>
  Claim C4, on \<^verbatim>\<open>worker.py\<close>: when the agent call times out, the exception is caught and
  the job fails, but the log entry holds only id, ok and latency; the exception text goes
  to the \<^verbatim>\<open>stderr.txt\<close> artifact. And a record that is no JSON makes \<^verbatim>\<open>run_once\<close> raise
  outside its \<^verbatim>\<open>try\<close>: the loop ends, the record stays in running, nothing is logged and
  the next record is never claimed.
\<close>

theorem worker_exception_handling:
  "(case run_once env3 world1 of
      Return u w \<Rightarrow> where_is w ''j1.json'' = [Failed] \<and>
         LOG_FILE w = [JObj [(''id'', JStr ''j1''), (''ok'', JBool False), (''latency_s'', JNum 7)]] \<and>
         map_of (PATCHES w) [''j1'', ''stderr.txt''] = Some ''TimeoutExpired: ''
    | _ \<Rightarrow> False) \<and>
   (case worker_main 2 env1 world4 of
      Raise x w \<Rightarrow> x = JSONDecodeError \<and> where_is w ''a0.json'' = [Running] \<and>
         where_is w ''j1.json'' = [Inbox] \<and> LOG_FILE w = []
    | _ \<Rightarrow> False)"
  by code_simp

text \<open>
  Claim C5, on \<^verbatim>\<open>worker.py\<close>: the record \<^verbatim>\<open>j2\<close> has an empty prompt and a repository path
  that is no directory; \<^verbatim>\<open>run_once\<close> checks neither, makes both agent calls, writes no
  \<^verbatim>\<open>error.txt\<close> and moves the job to done.
\<close>

theorem worker_does_not_validate:
  "(case run_once env1 world2 of
      Return u w \<Rightarrow> map fst (invoked w) = [Plan, Apply] \<and> where_is w ''j2.json'' = [Done] \<and>
         map_of (PATCHES w) [''j2'', ''error.txt''] = None
    | _ \<Rightarrow> False)"
  by code_simp

text \<open>
  Claim C6, on \<^verbatim>\<open>service.py\<close>: \<^verbatim>\<open>_run_subprocess\<close> passes no timeout, so with an agent that
  never exits the round of \<^verbatim>\<open>Worker.run\<close> never returns: the plan call was started, the
  record stays in running and nothing is logged.
\<close>

theorem service_call_unbounded:
  "(case worker_round env3 world3 of
      Hang w \<Rightarrow> where_is w ''j3.json'' = [Running] \<and> map fst (invoked w) = [Plan] \<and> LOG_FILE w = []
    | _ \<Rightarrow> False)"
  by code_simp

text \<open>
  Claim C8, on \<^verbatim>\<open>worker.py\<close>: the log entry of a finished job has the fields id, ok and
  \<^verbatim>\<open>latency_s\<close> and no timestamp (\<^verbatim>\<open>util.logj\<close> adds none).
\<close>

theorem worker_log_entry_has_no_timestamp:
  "(case run_once env1 world1 of
      Return u w \<Rightarrow> LOG_FILE w = [JObj [(''id'', JStr ''j1''), (''ok'', JBool True), (''latency_s'', JNum 7)]]
    | _ \<Rightarrow> False)"
  by code_simp

text \<open>
  Claim C3, on \<^verbatim>\<open>worker.py\<close>: the record \<^verbatim>\<open>j5\<close> has a prompt and a repository but no id. It
  is claimed, the plan call and the apply call are both made and the apply call exits with
  status 0, yet the job does not go to done: \<^verbatim>\<open>task["id"]\<close> after the \<^verbatim>\<open>try\<close> raises
  \<^verbatim>\<open>KeyError\<close>, \<^verbatim>\<open>run_once\<close> is left before \<^verbatim>\<open>finish\<close>, the record stays in running and
  nothing is logged.
\<close>

theorem worker_apply_zero_not_done:
  "(case run_once env5 world5 of
      Raise x w \<Rightarrow> x = KeyError \<and> map fst (invoked w) = [Plan, Apply] \<and>
         exit_status env5 (Some 600) (snd (invoked w ! 1)) = Some 0 \<and>
         where_is w ''j5.json'' = [Running] \<and> LOG_FILE w = []
    | _ \<Rightarrow> False)"
  by code_simp

section \<open>The paths through one job\<close>

subsection \<open>What the world updates leave alone\<close>

lemma write_artifact_proj:
  "queue (write_artifact a n c w) = queue w"
  "invoked (write_artifact a n c w) = invoked w"
  "LOG_FILE (write_artifact a n c w) = LOG_FILE w"
  by (simp_all add: write_artifact_def)

lemma started_proj:
  "queue (started ph args w) = queue w"
  "invoked (started ph args w) = invoked w @ [(ph, args)]"
  "LOG_FILE (started ph args w) = LOG_FILE w"
  "PATCHES (started ph args w) = PATCHES w"
  by (simp_all add: started_def)

lemma log_event_proj:
  "queue (log_event e en w) = queue w"
  "invoked (log_event e en w) = invoked w"
  "PATCHES (log_event e en w) = PATCHES w"
  by (simp_all add: log_event_def Let_def)

lemma logj_proj:
  "queue (logj en w) = queue w"
  "invoked (logj en w) = invoked w"
  "PATCHES (logj en w) = PATCHES w"
  "LOG_FILE (logj en w) = LOG_FILE w @ [JObj en]"
  by (simp_all add: logj_def ensure_dirs_proj)

lemma moved_proj:
  "invoked (write_text p c w) = invoked w"
  "LOG_FILE (write_text p c w) = LOG_FILE w"
  "PATCHES (write_text p c w) = PATCHES w"
  "invoked (unlink_path p w) = invoked w"
  "LOG_FILE (unlink_path p w) = LOG_FILE w"
  "PATCHES (unlink_path p w) = PATCHES w"
  by (simp_all add: write_text_def unlink_path_def)

lemma queue_moved_cong:
  "queue w' = queue w \<Longrightarrow>
   queue (write_text p c (unlink_path q w')) = queue (write_text p c (unlink_path q w))"
  by (simp add: write_text_def unlink_path_def)

lemma finish_job_present:
  "map_of (queue w Running) n = Some c \<Longrightarrow>
   finish_job (Running, n) ok w =
     Return () (write_text (if ok then Done else Failed, n) c (unlink_path (Running, n) w))"
  by (simp add: finish_job_def os_replace_def)

lemma finish_present:
  "map_of (queue w Running) n = Some c \<Longrightarrow>
   finish (Running, n) ok w =
     Return (if ok then Done else Failed, n)
            (write_text (if ok then Done else Failed, n) c (unlink_path (Running, n) w))"
  by (simp add: finish_def os_replace_def bind_def Let_def)

subsection \<open>The two calls of the service\<close>

lemma run_plan_eq:
  "run_plan e repo prompt job_id w =
     (case claude_cli e of
        None \<Rightarrow> Raise (RuntimeError cli_not_found) w
      | Some p \<Rightarrow>
          bind (subprocess_run e Plan (plan_call e repo prompt job_id) None w)
               (\<lambda>proc. Return (proc, combined_rules e repo)))"
  by (simp add: run_plan_def plan_call_def detect_supports_dash_p_def resolve_claude_cli_def
      run_subprocess_def bind_def Let_def split: option.splits)

lemma run_apply_eq:
  "run_apply e repo prompt job_id (combined_rules e repo) plan_output w =
     (case claude_cli e of
        None \<Rightarrow> Raise (RuntimeError cli_not_found) w
      | Some p \<Rightarrow> subprocess_run e Apply (apply_call e repo prompt job_id plan_output) None w)"
  by (simp add: run_apply_def apply_call_def detect_supports_dash_p_def resolve_claude_cli_def
      run_subprocess_def bind_def Let_def split: option.splits)

lemma subprocess_run_None:
  "subprocess_run e ph args None w =
     (case agent e args of
        CannotStart \<Rightarrow> Raise OSError (started ph args w)
      | Never \<Rightarrow> Hang (started ph args w)
      | Exits d rc out err \<Rightarrow> Return (Completed rc out err) (started ph args w))"
  by (simp add: subprocess_run_def Let_def split: behaviour.splits)

subsection \<open>The paths through process_job\<close>

lemma pj_invalid:
  assumes "loads e (read_text jf w) = None"
  shows "process_job e jf w =
           bind (finish_job jf False w) (\<lambda>_ w1.
           Return () (log_event e [(''id'', JStr (stem (snd jf))), (''dir'', JNull), (''repo_key'', JNull),
                                   (''ok'', JBool False), (''error'', JStr ''Invalid job JSON'')] w1))"
  using assms by (simp add: process_job_def)

lemma pj_fields:
  assumes "loads e (read_text jf w) = Some job" "job_fields e job = Inl x"
  shows "process_job e jf w = Raise x w"
  using assms by (simp add: process_job_def)

lemma pj_no_repo:
  assumes "loads e (read_text jf w) = Some job" "job_fields e job = Inr (repo, prompt, rk, jid)"
    "\<not> is_dir e repo"
  shows "process_job e jf w =
           bind (finish_job jf False (write_artifact [rk, jid] ''error.txt'' (''Repository path does not exist: '' @ repo) w)) (\<lambda>_ w1.
           Return () (log_event e (failure_entry jid repo rk (''Repository path does not exist: '' @ repo)) w1))"
  using assms by (simp add: process_job_def Let_def)

lemma pj_empty_prompt:
  assumes "loads e (read_text jf w) = Some job" "job_fields e job = Inr (repo, [], rk, jid)"
    "is_dir e repo"
  shows "process_job e jf w =
           bind (finish_job jf False (write_artifact [rk, jid] ''error.txt'' ''Empty prompt provided.'' w)) (\<lambda>_ w1.
           Return () (log_event e (failure_entry jid repo rk ''Empty prompt provided.'') w1))"
  using assms by (simp add: process_job_def Let_def)

lemma pj_no_cli:
  assumes "loads e (read_text jf w) = Some job" "job_fields e job = Inr (repo, prompt, rk, jid)"
    "is_dir e repo" "prompt \<noteq> []" "claude_cli e = None"
  shows "process_job e jf w =
           bind (finish_job jf False (write_artifact [rk, jid] ''stderr.txt'' cli_not_found w)) (\<lambda>_ w1.
           Return () (log_event e (failure_entry jid repo rk cli_not_found) w1))"
  using assms by (simp add: process_job_def Let_def run_plan_eq)

lemma pj_plan_cannot_start:
  assumes "loads e (read_text jf w) = Some job" "job_fields e job = Inr (repo, prompt, rk, jid)"
    "is_dir e repo" "prompt \<noteq> []" "claude_cli e = Some p"
    "agent e (plan_call e repo prompt jid) = CannotStart"
  shows "process_job e jf w = Raise OSError (started Plan (plan_call e repo prompt jid) w)"
  using assms by (simp add: process_job_def Let_def run_plan_eq subprocess_run_None bind_def)

lemma pj_plan_never:
  assumes "loads e (read_text jf w) = Some job" "job_fields e job = Inr (repo, prompt, rk, jid)"
    "is_dir e repo" "prompt \<noteq> []" "claude_cli e = Some p"
    "agent e (plan_call e repo prompt jid) = Never"
  shows "process_job e jf w = Hang (started Plan (plan_call e repo prompt jid) w)"
  using assms by (simp add: process_job_def Let_def run_plan_eq subprocess_run_None bind_def)

text \<open>The world after the plan call returned and its two artifacts were written.\<close>

lemma pj_plan_failed:
  assumes "loads e (read_text jf w) = Some job" "job_fields e job = Inr (repo, prompt, rk, jid)"
    "is_dir e repo" "prompt \<noteq> []" "claude_cli e = Some p"
    "agent e (plan_call e repo prompt jid) = Exits d rc out err" "rc \<noteq> 0"
  shows "process_job e jf w =
           bind (finish_job jf False
                  (write_artifact [rk, jid] ''plan.stderr.txt'' err
                    (write_artifact [rk, jid] ''plan.stdout.txt'' out
                      (started Plan (plan_call e repo prompt jid) w)))) (\<lambda>_ w3.
           Return () (log_event e (failure_entry jid repo rk ''Plan step failed'') w3))"
  using assms by (simp add: process_job_def Let_def run_plan_eq subprocess_run_None bind_def)

lemma pj_apply_cannot_start:
  assumes "loads e (read_text jf w) = Some job" "job_fields e job = Inr (repo, prompt, rk, jid)"
    "is_dir e repo" "prompt \<noteq> []" "claude_cli e = Some p"
    "agent e (plan_call e repo prompt jid) = Exits d 0 out err"
    "agent e (apply_call e repo prompt jid out) = CannotStart"
  shows "process_job e jf w =
           Raise OSError (started Apply (apply_call e repo prompt jid out)
                  (write_artifact [rk, jid] ''plan.stderr.txt'' err
                    (write_artifact [rk, jid] ''plan.stdout.txt'' out
                      (started Plan (plan_call e repo prompt jid) w))))"
  using assms by (simp add: process_job_def Let_def run_plan_eq run_apply_eq subprocess_run_None bind_def)

lemma pj_apply_never:
  assumes "loads e (read_text jf w) = Some job" "job_fields e job = Inr (repo, prompt, rk, jid)"
    "is_dir e repo" "prompt \<noteq> []" "claude_cli e = Some p"
    "agent e (plan_call e repo prompt jid) = Exits d 0 out err"
    "agent e (apply_call e repo prompt jid out) = Never"
  shows "process_job e jf w =
           Hang (started Apply (apply_call e repo prompt jid out)
                  (write_artifact [rk, jid] ''plan.stderr.txt'' err
                    (write_artifact [rk, jid] ''plan.stdout.txt'' out
                      (started Plan (plan_call e repo prompt jid) w))))"
  using assms by (simp add: process_job_def Let_def run_plan_eq run_apply_eq subprocess_run_None bind_def)

lemma pj_apply_exits:
  assumes "loads e (read_text jf w) = Some job" "job_fields e job = Inr (repo, prompt, rk, jid)"
    "is_dir e repo" "prompt \<noteq> []" "claude_cli e = Some p"
    "agent e (plan_call e repo prompt jid) = Exits d 0 out err"
    "agent e (apply_call e repo prompt jid out) = Exits d2 rc2 out2 err2"
  shows "process_job e jf w =
           bind (finish_job jf (rc2 = 0)
                  (write_artifact [rk, jid] ''apply.stderr.txt'' err2
                    (write_artifact [rk, jid] ''apply.stdout.txt'' out2
                      (started Apply (apply_call e repo prompt jid out)
                        (write_artifact [rk, jid] ''plan.stderr.txt'' err
                          (write_artifact [rk, jid] ''plan.stdout.txt'' out
                            (started Plan (plan_call e repo prompt jid) w))))))) (\<lambda>_ w5.
           Return () (log_event e [(''id'', JStr jid), (''dir'', JStr repo), (''repo_key'', JStr rk),
                                   (''ok'', JBool (rc2 = 0))] w5))"
  using assms
  by (simp add: process_job_def Let_def run_plan_eq run_apply_eq subprocess_run_None bind_def
      split: result.splits)

lemma where_is_queue: "queue w' = queue w \<Longrightarrow> where_is w' n = where_is w n"
  by (simp add: where_is_def)

lemma exclusive_queue: "queue w' = queue w \<Longrightarrow> exclusive w' = exclusive w"
  by (simp add: exclusive_def)

lemma names_queue: "queue w' = queue w \<Longrightarrow> names w' d = names w d"
  by (simp add: names_def)

lemma claim_from_result:
  "claim_from cands w = Return None w \<or>
   (\<exists>n c. n \<in> set cands \<and> map_of (queue w Inbox) n = Some c \<and>
      claim_from cands w = Return (Some (Running, n)) (write_text (Running, n) c (unlink_path (Inbox, n) w)))"
proof (induction cands)
  case Nil
  then show ?case by simp
next
  case (Cons p ps)
  show ?case
  proof (cases "map_of (queue w Inbox) p")
    case None
    then show ?thesis using Cons by (auto simp: os_replace_missing)
  next
    case (Some c)
    then show ?thesis by (auto simp: os_replace_move)
  qed
qed

text \<open>What a successful claim leaves behind, for either implementation.\<close>

lemma claimed_world:
  assumes ex: "exclusive w"
    and cl: "claim_from (sort (glob_json (queue w Inbox))) w = Return (Some jf) w1"
  shows "\<exists>n c. jf = (Running, n) \<and> ends_with ''.json'' n \<and> map_of (queue w1 Running) n = Some c \<and>
           exclusive w1 \<and> where_is w1 n = [Running] \<and> where_is w n = [Inbox] \<and>
           invoked w1 = invoked w \<and> LOG_FILE w1 = LOG_FILE w \<and> PATCHES w1 = PATCHES w"
proof -
  from claim_from_result[of "sort (glob_json (queue w Inbox))" w] cl
  obtain n c where n: "n \<in> set (sort (glob_json (queue w Inbox)))"
    and inb: "map_of (queue w Inbox) n = Some c"
    and jf: "jf = (Running, n)" and w1: "w1 = write_text (Running, n) c (unlink_path (Inbox, n) w)"
    by auto
  have j: "ends_with ''.json'' n" using n by (simp add: glob_json_def)
  have nin: "n \<in> names w Inbox" using inb map_of_names[of w Inbox n] by simp
  have ex1: "exclusive w1" unfolding w1 by (rule moved_exclusive[OF ex j nin]) simp
  have mv: "where_is w n = [Inbox] \<and> where_is w1 n = [Running] \<and> (\<forall>m. m \<noteq> n \<longrightarrow> where_is w1 m = where_is w m)"
    by (rule moved_where_is[OF ex j nin _ w1]) simp
  have run: "map_of (queue w1 Running) n = Some c"
    unfolding w1 by (simp add: write_text_def write_file_def unlink_path_def)
  show ?thesis using jf j run ex1 mv unfolding w1 by (simp add: moved_proj)
qed

text \<open>Finishing a claimed job, on any world that has the queue of the claim.\<close>

lemma finished_job:
  fixes ok :: bool
  assumes ex: "exclusive w1" and j: "ends_with ''.json'' n"
    and run: "map_of (queue w1 Running) n = Some c" and q: "queue W = queue w1"
  defines "W' \<equiv> write_text (if ok then Done else Failed, n) c (unlink_path (Running, n) W)"
  shows "finish_job (Running, n) ok W = Return () W'"
    and "finish (Running, n) ok W = Return (if ok then Done else Failed, n) W'"
    and "where_is W' n = [if ok then Done else Failed]"
    and "invoked W' = invoked W" and "LOG_FILE W' = LOG_FILE W" and "PATCHES W' = PATCHES W"
proof -
  have runW: "map_of (queue W Running) n = Some c" using run q by simp
  show "finish_job (Running, n) ok W = Return () W'"
    unfolding W'_def by (rule finish_job_present[OF runW])
  show "finish (Running, n) ok W = Return (if ok then Done else Failed, n) W'"
    unfolding W'_def by (rule finish_present[OF runW])
  have nin: "n \<in> names w1 Running" using run map_of_names[of w1 Running n] by simp
  have ne: "Running \<noteq> (if ok then Done else Failed)" by simp
  have a: "where_is (write_text (if ok then Done else Failed, n) c (unlink_path (Running, n) w1)) n
          = [if ok then Done else Failed]"
    using moved_where_is[OF ex j nin ne refl] by (rule conjunct2[THEN conjunct1])
  have b: "queue W' = queue (write_text (if ok then Done else Failed, n) c (unlink_path (Running, n) w1))"
    unfolding W'_def by (rule queue_moved_cong[OF q])
  show "where_is W' n = [if ok then Done else Failed]"
    using where_is_queue[OF b, of n] a by simp
  show "invoked W' = invoked W" "LOG_FILE W' = LOG_FILE W" "PATCHES W' = PATCHES W"
    unfolding W'_def by (simp_all add: moved_proj)
qed

lemma process_job_cases [case_names invalid fields no_repo empty_prompt no_cli plan_cannot_start
    plan_never plan_failed apply_cannot_start apply_never apply_exits]:
  fixes e :: env and jf :: path and w :: world
  obtains
    "loads e (read_text jf w) = None"
  | job x where "loads e (read_text jf w) = Some job" "job_fields e job = Inl x"
  | job repo prompt rk jid where "loads e (read_text jf w) = Some job"
      "job_fields e job = Inr (repo, prompt, rk, jid)" "\<not> is_dir e repo"
  | job repo rk jid where "loads e (read_text jf w) = Some job"
      "job_fields e job = Inr (repo, [], rk, jid)" "is_dir e repo"
  | job repo prompt rk jid where "loads e (read_text jf w) = Some job"
      "job_fields e job = Inr (repo, prompt, rk, jid)" "is_dir e repo" "prompt \<noteq> []" "claude_cli e = None"
  | job repo prompt rk jid p where "loads e (read_text jf w) = Some job"
      "job_fields e job = Inr (repo, prompt, rk, jid)" "is_dir e repo" "prompt \<noteq> []" "claude_cli e = Some p"
      "agent e (plan_call e repo prompt jid) = CannotStart"
  | job repo prompt rk jid p where "loads e (read_text jf w) = Some job"
      "job_fields e job = Inr (repo, prompt, rk, jid)" "is_dir e repo" "prompt \<noteq> []" "claude_cli e = Some p"
      "agent e (plan_call e repo prompt jid) = Never"
  | job repo prompt rk jid p d rc out err where "loads e (read_text jf w) = Some job"
      "job_fields e job = Inr (repo, prompt, rk, jid)" "is_dir e repo" "prompt \<noteq> []" "claude_cli e = Some p"
      "agent e (plan_call e repo prompt jid) = Exits d rc out err" "rc \<noteq> 0"
  | job repo prompt rk jid p d out err where "loads e (read_text jf w) = Some job"
      "job_fields e job = Inr (repo, prompt, rk, jid)" "is_dir e repo" "prompt \<noteq> []" "claude_cli e = Some p"
      "agent e (plan_call e repo prompt jid) = Exits d 0 out err"
      "agent e (apply_call e repo prompt jid out) = CannotStart"
  | job repo prompt rk jid p d out err where "loads e (read_text jf w) = Some job"
      "job_fields e job = Inr (repo, prompt, rk, jid)" "is_dir e repo" "prompt \<noteq> []" "claude_cli e = Some p"
      "agent e (plan_call e repo prompt jid) = Exits d 0 out err"
      "agent e (apply_call e repo prompt jid out) = Never"
  | job repo prompt rk jid p d out err d2 rc2 out2 err2 where "loads e (read_text jf w) = Some job"
      "job_fields e job = Inr (repo, prompt, rk, jid)" "is_dir e repo" "prompt \<noteq> []" "claude_cli e = Some p"
      "agent e (plan_call e repo prompt jid) = Exits d 0 out err"
      "agent e (apply_call e repo prompt jid out) = Exits d2 rc2 out2 err2"
proof (cases "loads e (read_text jf w)")
  case None
  then show ?thesis using that(1) by blast
next
  case (Some job)
  show ?thesis
  proof (cases "job_fields e job")
    case (Inl x)
    then show ?thesis using Some that(2) by blast
  next
    case (Inr f)
    obtain repo prompt rk jid where f: "f = (repo, prompt, rk, jid)" by (cases f) auto
    note jf = Inr[unfolded f]
    show ?thesis
    proof (cases "is_dir e repo")
      case False
      then show ?thesis using Some jf that(3) by blast
    next
      case dir: True
      show ?thesis
      proof (cases "prompt = []")
        case True
        then show ?thesis using Some jf dir that(4) by blast
      next
        case pr: False
        show ?thesis
        proof (cases "claude_cli e")
          case None
          then show ?thesis using Some jf dir pr that(5) by blast
        next
          case cli: (Some p)
          show ?thesis
          proof (cases "agent e (plan_call e repo prompt jid)")
            case CannotStart
            then show ?thesis using Some jf dir pr cli that(6) by blast
          next
            case Never
            then show ?thesis using Some jf dir pr cli that(7) by blast
          next
            case pl: (Exits d rc out err)
            show ?thesis
            proof (cases "rc = 0")
              case False
              then show ?thesis using Some jf dir pr cli pl that(8) by blast
            next
              case True
              note pl0 = pl[unfolded True]
              show ?thesis
              proof (cases "agent e (apply_call e repo prompt jid out)")
                case CannotStart
                then show ?thesis using Some jf dir pr cli pl0 that(9) by blast
              next
                case Never
                then show ?thesis using Some jf dir pr cli pl0 that(10) by blast
              next
                case (Exits d2 rc2 out2 err2)
                then show ?thesis using Some jf dir pr cli pl0 that(11) by blast
              qed
            qed
          qed
        qed
      qed
    qed
  qed
qed

lemma finish_and_log:
  fixes ok :: bool
  assumes ex: "exclusive w1" and j: "ends_with ''.json'' n"
    and run: "map_of (queue w1 Running) n = Some c" and q: "queue W = queue w1"
  shows "\<exists>W'. bind (finish_job (Running, n) ok W) (\<lambda>_ w'. Return () (log_event e en w')) = Return () W' \<and>
           where_is W' n = [if ok then Done else Failed] \<and> invoked W' = invoked W \<and>
           PATCHES W' = PATCHES W \<and>
           LOG_FILE W' = LOG_FILE W @
             [JObj (if map_of en ''ts'' = None then en @ [(''ts'', JNum (time_now e))] else en)]"
proof -
  let ?M = "write_text (if ok then Done else Failed, n) c (unlink_path (Running, n) W)"
  note f = finished_job[OF ex j run q, of ok]
  have "bind (finish_job (Running, n) ok W) (\<lambda>_ w'. Return () (log_event e en w')) = Return () (log_event e en ?M)"
    by (simp add: f(1) bind_def)
  moreover have "where_is (log_event e en ?M) n = [if ok then Done else Failed]"
    using where_is_queue[OF log_event_proj(1), of e en ?M n] f(3) by simp
  moreover have "invoked (log_event e en ?M) = invoked W" "PATCHES (log_event e en ?M) = PATCHES W"
    by (simp_all add: log_event_proj f(4) f(6))
  moreover have "LOG_FILE (log_event e en ?M) = LOG_FILE W @
             [JObj (if map_of en ''ts'' = None then en @ [(''ts'', JNum (time_now e))] else en)]"
    by (simp add: log_event_def Let_def f(5))
  ultimately show ?thesis by blast
qed

lemma worker_round_claimed:
  "claim_job w = Return (Some jf) w1 \<Longrightarrow>
   worker_round e w =
     (case process_job e jf w1 of
        Raise exc w2 \<Rightarrow>
          bind (finish_job jf False w2) (\<lambda>_ w3.
          Return () (log_event e [(''id'', JStr (stem (snd jf))), (''dir'', JNull), (''repo_key'', JNull),
                                  (''ok'', JBool False),
                                  (''error'', JStr (''Worker exception: '' @ str_exc e exc))] w3))
      | r \<Rightarrow> r)"
  by (simp add: worker_round_def bind_def)

lemma exit_status_None:
  "exit_status e None i = (case agent e i of Exits d rc out err \<Rightarrow> Some rc | _ \<Rightarrow> None)"
  by (simp add: exit_status_def split: behaviour.splits)

lemma service_apply_decides:
  assumes ex: "exclusive w" and cl: "claim_job w = Return (Some jf) w1"
    and two: "invoked (world_of (worker_round e w)) = invoked w @ [(Plan, i1), (Apply, i2)]"
  shows "where_is (world_of (worker_round e w)) (snd jf) =
           (if exit_status e None i2 = Some 0 then [Done]
            else if agent e i2 = Never then [Running] else [Failed])"
proof -
  from claimed_world[OF ex cl[unfolded claim_job_def]]
  obtain n c where jf: "jf = (Running, n)" and j: "ends_with ''.json'' n"
    and run: "map_of (queue w1 Running) n = Some c" and ex1: "exclusive w1"
    and at: "where_is w1 n = [Running]" and inv: "invoked w1 = invoked w"
    by blast
  note wr = worker_round_claimed[OF cl, of e, unfolded jf]
  note fl = finish_and_log[OF ex1 j run]
  show ?thesis
  proof (cases rule: process_job_cases[of e "(Running, n)" w1])
    case invalid
    from fl[of w1 False e] obtain W' where
      "bind (finish_job (Running, n) False w1) (\<lambda>_ w'. Return () (log_event e [(''id'', JStr (stem n)), (''dir'', JNull), (''repo_key'', JNull),
                                   (''ok'', JBool False), (''error'', JStr ''Invalid job JSON'')] w')) = Return () W'"
      "invoked W' = invoked w1" by auto
    then have "invoked (world_of (worker_round e w)) = invoked w"
      using wr inv by (simp add: pj_invalid[OF invalid])
    then show ?thesis using two by simp
  next
    case (fields job x)
    from fl[of w1 False e] obtain W' where
      "bind (finish_job (Running, n) False w1) (\<lambda>_ w'. Return () (log_event e [(''id'', JStr (stem n)), (''dir'', JNull), (''repo_key'', JNull),
                                   (''ok'', JBool False), (''error'', JStr (''Worker exception: '' @ str_exc e x))] w')) = Return () W'"
      "invoked W' = invoked w1" by auto
    then have "invoked (world_of (worker_round e w)) = invoked w"
      using wr inv by (simp add: pj_fields[OF fields])
    then show ?thesis using two by simp
  next
    case (no_repo job repo prompt rk jid)
    let ?W = "write_artifact [rk, jid] ''error.txt'' (''Repository path does not exist: '' @ repo) w1"
    from fl[of ?W False e "failure_entry jid repo rk (''Repository path does not exist: '' @ repo)"]
    obtain W' where
      "bind (finish_job (Running, n) False ?W) (\<lambda>_ w'. Return () (log_event e (failure_entry jid repo rk (''Repository path does not exist: '' @ repo)) w')) = Return () W'"
      "invoked W' = invoked ?W" by (auto simp: write_artifact_proj)
    then have "invoked (world_of (worker_round e w)) = invoked w"
      using wr inv by (simp add: pj_no_repo[OF no_repo] write_artifact_proj)
    then show ?thesis using two by simp
  next
    case (empty_prompt job repo rk jid)
    let ?W = "write_artifact [rk, jid] ''error.txt'' ''Empty prompt provided.'' w1"
    from fl[of ?W False e "failure_entry jid repo rk ''Empty prompt provided.''"]
    obtain W' where
      "bind (finish_job (Running, n) False ?W) (\<lambda>_ w'. Return () (log_event e (failure_entry jid repo rk ''Empty prompt provided.'') w')) = Return () W'"
      "invoked W' = invoked ?W" by (auto simp: write_artifact_proj)
    then have "invoked (world_of (worker_round e w)) = invoked w"
      using wr inv by (simp add: pj_empty_prompt[OF empty_prompt] write_artifact_proj)
    then show ?thesis using two by simp
  next
    case (no_cli job repo prompt rk jid)
    let ?W = "write_artifact [rk, jid] ''stderr.txt'' cli_not_found w1"
    from fl[of ?W False e "failure_entry jid repo rk cli_not_found"]
    obtain W' where
      "bind (finish_job (Running, n) False ?W) (\<lambda>_ w'. Return () (log_event e (failure_entry jid repo rk cli_not_found) w')) = Return () W'"
      "invoked W' = invoked ?W" by (auto simp: write_artifact_proj)
    then have "invoked (world_of (worker_round e w)) = invoked w"
      using wr inv by (simp add: pj_no_cli[OF no_cli] write_artifact_proj)
    then show ?thesis using two by simp
  next
    case (plan_cannot_start job repo prompt rk jid p)
    let ?W = "started Plan (plan_call e repo prompt jid) w1"
    from fl[of ?W False e] obtain W' where
      "bind (finish_job (Running, n) False ?W) (\<lambda>_ w'. Return () (log_event e [(''id'', JStr (stem n)), (''dir'', JNull), (''repo_key'', JNull),
                                   (''ok'', JBool False), (''error'', JStr (''Worker exception: '' @ str_exc e OSError))] w')) = Return () W'"
      "invoked W' = invoked ?W" by (auto simp: started_proj)
    then have "invoked (world_of (worker_round e w)) = invoked w @ [(Plan, plan_call e repo prompt jid)]"
      using wr inv by (simp add: pj_plan_cannot_start[OF plan_cannot_start] started_proj)
    then show ?thesis using two by simp
  next
    case (plan_never job repo prompt rk jid p)
    have "invoked (world_of (worker_round e w)) = invoked w @ [(Plan, plan_call e repo prompt jid)]"
      using wr inv by (simp add: pj_plan_never[OF plan_never] started_proj)
    then show ?thesis using two by simp
  next
    case (plan_failed job repo prompt rk jid p d rc out err)
    let ?W = "write_artifact [rk, jid] ''plan.stderr.txt'' err
                (write_artifact [rk, jid] ''plan.stdout.txt'' out (started Plan (plan_call e repo prompt jid) w1))"
    from fl[of ?W False e "failure_entry jid repo rk ''Plan step failed''"]
    obtain W' where
      "bind (finish_job (Running, n) False ?W) (\<lambda>_ w'. Return () (log_event e (failure_entry jid repo rk ''Plan step failed'') w')) = Return () W'"
      "invoked W' = invoked ?W" by (auto simp: write_artifact_proj started_proj)
    then have "invoked (world_of (worker_round e w)) = invoked w @ [(Plan, plan_call e repo prompt jid)]"
      using wr inv by (simp add: pj_plan_failed[OF plan_failed] write_artifact_proj started_proj)
    then show ?thesis using two by simp
  next
    case (apply_cannot_start job repo prompt rk jid p d out err)
    let ?W = "started Apply (apply_call e repo prompt jid out)
                (write_artifact [rk, jid] ''plan.stderr.txt'' err
                  (write_artifact [rk, jid] ''plan.stdout.txt'' out (started Plan (plan_call e repo prompt jid) w1)))"
    from fl[of ?W False e] obtain W' where
      W': "bind (finish_job (Running, n) False ?W) (\<lambda>_ w'. Return () (log_event e [(''id'', JStr (stem n)), (''dir'', JNull), (''repo_key'', JNull),
                                   (''ok'', JBool False), (''error'', JStr (''Worker exception: '' @ str_exc e OSError))] w')) = Return () W'"
      "invoked W' = invoked ?W" "where_is W' n = [Failed]" by (auto simp: write_artifact_proj started_proj)
    have wo: "world_of (worker_round e w) = W'"
      using wr W'(1) by (simp add: pj_apply_cannot_start[OF apply_cannot_start])
    have "invoked W' = invoked w @ [(Plan, plan_call e repo prompt jid), (Apply, apply_call e repo prompt jid out)]"
      using W'(2) inv by (simp add: write_artifact_proj started_proj)
    then have "i2 = apply_call e repo prompt jid out" using two wo by simp
    then show ?thesis using wo W'(3) apply_cannot_start(7) jf by (simp add: exit_status_None)
  next
    case (apply_never job repo prompt rk jid p d out err)
    let ?W = "started Apply (apply_call e repo prompt jid out)
                (write_artifact [rk, jid] ''plan.stderr.txt'' err
                  (write_artifact [rk, jid] ''plan.stdout.txt'' out (started Plan (plan_call e repo prompt jid) w1)))"
    have wo: "world_of (worker_round e w) = ?W"
      using wr by (simp add: pj_apply_never[OF apply_never])
    have "invoked ?W = invoked w @ [(Plan, plan_call e repo prompt jid), (Apply, apply_call e repo prompt jid out)]"
      using inv by (simp add: write_artifact_proj started_proj)
    then have i2: "i2 = apply_call e repo prompt jid out" using two wo by simp
    have "queue ?W = queue w1" by (simp add: write_artifact_proj started_proj)
    then have "where_is ?W n = [Running]" using where_is_queue[of ?W w1 n] at by simp
    then show ?thesis using wo i2 apply_never(7) jf by (simp add: exit_status_None)
  next
    case (apply_exits job repo prompt rk jid p d out err d2 rc2 out2 err2)
    let ?W = "write_artifact [rk, jid] ''apply.stderr.txt'' err2
               (write_artifact [rk, jid] ''apply.stdout.txt'' out2
                 (started Apply (apply_call e repo prompt jid out)
                   (write_artifact [rk, jid] ''plan.stderr.txt'' err
                     (write_artifact [rk, jid] ''plan.stdout.txt'' out (started Plan (plan_call e repo prompt jid) w1)))))"
    from fl[of ?W "rc2 = 0" e "[(''id'', JStr jid), (''dir'', JStr repo), (''repo_key'', JStr rk), (''ok'', JBool (rc2 = 0))]"]
    obtain W' where
      W': "bind (finish_job (Running, n) (rc2 = 0) ?W) (\<lambda>_ w'. Return () (log_event e [(''id'', JStr jid), (''dir'', JStr repo), (''repo_key'', JStr rk), (''ok'', JBool (rc2 = 0))] w')) = Return () W'"
      "invoked W' = invoked ?W" "where_is W' n = [if rc2 = 0 then Done else Failed]"
      by (auto simp: write_artifact_proj started_proj)
    have wo: "world_of (worker_round e w) = W'"
      using wr W'(1) by (simp add: pj_apply_exits[OF apply_exits])
    have "invoked W' = invoked w @ [(Plan, plan_call e repo prompt jid), (Apply, apply_call e repo prompt jid out)]"
      using W'(2) inv by (simp add: write_artifact_proj started_proj)
    then have "i2 = apply_call e repo prompt jid out" using two wo by simp
    then show ?thesis using wo W'(3) apply_exits(7) jf by (simp add: exit_status_None)
  qed
qed

lemma run_600:
  "run e ph args w =
     (case agent e args of
        CannotStart \<Rightarrow> Raise OSError (started ph args w)
      | Never \<Rightarrow> Raise TimeoutExpired (started ph args w)
      | Exits d rc out err \<Rightarrow>
          if d \<le> 600 then Return (Completed rc out err) (started ph args w)
          else Raise TimeoutExpired (started ph args w))"
  by (simp add: run_def subprocess_run_def Let_def split: behaviour.splits)

lemma run_result:
  "(\<exists>x. run e ph args w = Raise x (started ph args w) \<and> exit_status e (Some 600) args = None) \<or>
   (\<exists>rc out err. run e ph args w = Return (Completed rc out err) (started ph args w) \<and>
       exit_status e (Some 600) args = Some rc)"
  by (cases "agent e args") (auto simp: run_600 exit_status_def)

text \<open>Two calls in a row, as both styles of \<^verbatim>\<open>claude_plan_apply\<close> make them.\<close>

lemma two_calls_result:
  fixes mk :: "string \<Rightarrow> invocation" and e :: env and i1 :: invocation and w :: world
    and apply_md :: json
  defines "r \<equiv> bind (run e Plan i1 w) (\<lambda>p1 w1.
        (case apply_md of
           JStr a \<Rightarrow>
             bind (run e Apply (mk a) w1) (\<lambda>p2.
             Return (returncode p2, stdout p1 @ ''\<newline>---\<newline>'' @ stdout p2,
                     stderr p1 @ ''\<newline>---\<newline>'' @ stderr p2))
         | _ \<Rightarrow> Raise TypeError w1))"
  shows "\<exists>w'. queue w' = queue w \<and> LOG_FILE w' = LOG_FILE w \<and> PATCHES w' = PATCHES w \<and>
          ((\<exists>x. r = Raise x w' \<and>
               (invoked w' = invoked w @ [(Plan, i1)] \<or>
                (\<exists>i2. invoked w' = invoked w @ [(Plan, i1), (Apply, i2)] \<and> exit_status e (Some 600) i2 = None))) \<or>
           (\<exists>rc out err i2. r = Return (rc, out, err) w' \<and>
               invoked w' = invoked w @ [(Plan, i1), (Apply, i2)] \<and> exit_status e (Some 600) i2 = Some rc))"
proof -
  from run_result[of e Plan i1 w] consider
    (raise) x where "run e Plan i1 w = Raise x (started Plan i1 w)"
  | (ret) rc out err where "run e Plan i1 w = Return (Completed rc out err) (started Plan i1 w)"
    by blast
  then show ?thesis
  proof cases
    case raise
    then show ?thesis unfolding r_def by (auto simp: bind_def started_proj)
  next
    case ret
    show ?thesis
    proof (cases "\<exists>a. apply_md = JStr a")
      case False
      then have "r = Raise TypeError (started Plan i1 w)"
        unfolding r_def by (cases apply_md) (simp_all add: ret bind_def)
      then show ?thesis by (auto simp: started_proj)
    next
      case True
      then obtain a where a: "apply_md = JStr a" by blast
      from run_result[of e Apply "mk a" "started Plan i1 w"] show ?thesis
      proof
        assume "\<exists>x. run e Apply (mk a) (started Plan i1 w) = Raise x (started Apply (mk a) (started Plan i1 w)) \<and>
                    exit_status e (Some 600) (mk a) = None"
        then obtain x where "run e Apply (mk a) (started Plan i1 w) = Raise x (started Apply (mk a) (started Plan i1 w))"
          and "exit_status e (Some 600) (mk a) = None" by blast
        then have "r = Raise x (started Apply (mk a) (started Plan i1 w))"
          unfolding r_def by (simp add: ret a bind_def)
        then show ?thesis using \<open>exit_status e (Some 600) (mk a) = None\<close>
          by (intro exI[of _ "started Apply (mk a) (started Plan i1 w)"]) (auto simp: started_proj)
      next
        assume "\<exists>rc out err. run e Apply (mk a) (started Plan i1 w) =
                  Return (Completed rc out err) (started Apply (mk a) (started Plan i1 w)) \<and>
                  exit_status e (Some 600) (mk a) = Some rc"
        then obtain rc2 out2 err2 where
          "run e Apply (mk a) (started Plan i1 w) = Return (Completed rc2 out2 err2) (started Apply (mk a) (started Plan i1 w))"
          and es: "exit_status e (Some 600) (mk a) = Some rc2" by blast
        then have "r = Return (rc2, out @ ''\<newline>---\<newline>'' @ out2, err @ ''\<newline>---\<newline>'' @ err2)
                        (started Apply (mk a) (started Plan i1 w))"
          unfolding r_def by (simp add: ret a bind_def)
        then show ?thesis using es
          by (intro exI[of _ "started Apply (mk a) (started Plan i1 w)"]) (auto simp: started_proj)
      qed
    qed
  qed
qed

lemma claude_plan_apply_result:
  "\<exists>w'. queue w' = queue w \<and> LOG_FILE w' = LOG_FILE w \<and> PATCHES w' = PATCHES w \<and>
     ((\<exists>x. claude_plan_apply e repo plan_md apply_md w = Raise x w' \<and>
          (invoked w' = invoked w \<or> (\<exists>i1. invoked w' = invoked w @ [(Plan, i1)]) \<or>
           (\<exists>i1 i2. invoked w' = invoked w @ [(Plan, i1), (Apply, i2)] \<and> exit_status e (Some 600) i2 = None))) \<or>
      (\<exists>rc out err i1 i2. claude_plan_apply e repo plan_md apply_md w = Return (rc, out, err) w' \<and>
          invoked w' = invoked w @ [(Plan, i1), (Apply, i2)] \<and> exit_status e (Some 600) i2 = Some rc))"
proof (cases "claude_on_path e")
  case False
  then have "claude_plan_apply e repo plan_md apply_md w = Raise FileNotFoundError w"
    by (simp add: claude_plan_apply_def)
  then show ?thesis by auto
next
  case True
  show ?thesis
  proof (cases "supports_dash_p e")
    case dash: True
    have eq: "claude_plan_apply e repo plan_md apply_md w =
        bind (run e Plan (DashP plan_md) w) (\<lambda>p1 w1.
        (case apply_md of
           JStr a \<Rightarrow>
             bind (run e Apply (DashP a) w1) (\<lambda>p2.
             Return (returncode p2, stdout p1 @ ''\<newline>---\<newline>'' @ stdout p2,
                     stderr p1 @ ''\<newline>---\<newline>'' @ stderr p2))
         | _ \<Rightarrow> Raise TypeError w1))"
      using True dash by (simp add: claude_plan_apply_def)
    show ?thesis
      using two_calls_result[where mk=DashP and e=e and w=w and apply_md=apply_md and ?i1.0="DashP plan_md"] unfolding eq by blast
  next
    case nodash: False
    have eq: "claude_plan_apply e repo plan_md apply_md w =
        bind (run e Plan (CodePlan repo plan_md) w) (\<lambda>p1 w1.
        (case apply_md of
           JStr a \<Rightarrow>
             bind (run e Apply (CodeApply repo a) w1) (\<lambda>p2.
             Return (returncode p2, stdout p1 @ ''\<newline>---\<newline>'' @ stdout p2,
                     stderr p1 @ ''\<newline>---\<newline>'' @ stderr p2))
         | _ \<Rightarrow> Raise TypeError w1))"
      using True nodash by (simp add: claude_plan_apply_def)
    show ?thesis
      using two_calls_result[where mk="CodeApply repo" and e=e and w=w and apply_md=apply_md and ?i1.0="CodePlan repo plan_md"] unfolding eq by blast
  qed
qed

lemma try_body_shape:
  "(\<exists>x. try_body e task w = Raise x w) \<or>
   (\<exists>m. try_body e task w = Return (False, [], m) w) \<or>
   (\<exists>repo plan_md apply_md.
      try_body e task w =
        bind (claude_plan_apply e repo plan_md apply_md w) (\<lambda>(rc, out, err). Return (rc = 0, out, err)))"
proof (cases "\<exists>d r apply_md. task = JObj d \<and> dict_get d ''repo'' (JStr ''.'') = JStr r \<and>
                 map_of d ''prompt'' = Some apply_md \<and> claude_on_path e")
  case True
  then obtain d r apply_md where "task = JObj d" "dict_get d ''repo'' (JStr ''.'') = JStr r"
    "map_of d ''prompt'' = Some apply_md" "claude_on_path e" by blast
  then have "try_body e task w =
        bind (claude_plan_apply e (resolve e r) (build_plan_prompt e (util_combined_rules e (resolve e r))) apply_md w)
             (\<lambda>(rc, out, err). Return (rc = 0, out, err))"
    by (simp add: try_body_def Let_def)
  then show ?thesis by blast
next
  case False
  then have "(\<exists>x. try_body e task w = Raise x w) \<or> (\<exists>m. try_body e task w = Return (False, [], m) w)"
    by (auto simp: try_body_def Let_def split: json.splits option.splits)
  then show ?thesis by blast
qed

text \<open>The \<^verbatim>\<open>try\<close> with its \<^verbatim>\<open>except\<close>: always a value, never an exception.\<close>

lemma try_caught:
  "\<exists>ok out err w2.
     (case try_body e task w of
        Raise x w2 \<Rightarrow> Return (False, [], exc_name e x @ '': '' @ exc_text e x) w2
      | r' \<Rightarrow> r') = Return (ok, out, err) w2 \<and>
     queue w2 = queue w \<and> LOG_FILE w2 = LOG_FILE w \<and> PATCHES w2 = PATCHES w \<and>
     (\<forall>i1 i2. invoked w2 = invoked w @ [(Plan, i1), (Apply, i2)] \<longrightarrow>
              ok = (exit_status e (Some 600) i2 = Some 0))"
proof -
  from try_body_shape[of e task w] consider
    (raise) x where "try_body e task w = Raise x w"
  | (msg) m where "try_body e task w = Return (False, [], m) w"
  | (call) repo plan_md apply_md where
      "try_body e task w =
        bind (claude_plan_apply e repo plan_md apply_md w) (\<lambda>(rc, out, err). Return (rc = 0, out, err))"
    by blast
  then show ?thesis
  proof cases
    case raise
    have "(case try_body e task w of
               Raise x w2 \<Rightarrow> Return (False, [], exc_name e x @ '': '' @ exc_text e x) w2
             | r' \<Rightarrow> r') = Return (False, [], exc_name e x @ '': '' @ exc_text e x) w"
      by (simp add: raise)
    moreover have "\<forall>i1 i2. invoked w = invoked w @ [(Plan, i1), (Apply, i2)] \<longrightarrow>
              False = (exit_status e (Some 600) i2 = Some 0)"
      by simp
    ultimately show ?thesis by blast
  next
    case msg
    have "(case try_body e task w of
               Raise x w2 \<Rightarrow> Return (False, [], exc_name e x @ '': '' @ exc_text e x) w2
             | r' \<Rightarrow> r') = Return (False, [], m) w"
      by (simp add: msg)
    moreover have "\<forall>i1 i2. invoked w = invoked w @ [(Plan, i1), (Apply, i2)] \<longrightarrow>
              False = (exit_status e (Some 600) i2 = Some 0)"
      by simp
    ultimately show ?thesis by blast
  next
    case call
    from claude_plan_apply_result[of w e repo plan_md apply_md]
    obtain w' where q: "queue w' = queue w" "LOG_FILE w' = LOG_FILE w" "PATCHES w' = PATCHES w"
      and r: "(\<exists>x. claude_plan_apply e repo plan_md apply_md w = Raise x w' \<and>
          (invoked w' = invoked w \<or> (\<exists>i1. invoked w' = invoked w @ [(Plan, i1)]) \<or>
           (\<exists>i1 i2. invoked w' = invoked w @ [(Plan, i1), (Apply, i2)] \<and> exit_status e (Some 600) i2 = None))) \<or>
      (\<exists>rc out err i1 i2. claude_plan_apply e repo plan_md apply_md w = Return (rc, out, err) w' \<and>
          invoked w' = invoked w @ [(Plan, i1), (Apply, i2)] \<and> exit_status e (Some 600) i2 = Some rc)"
      by blast
    from r show ?thesis
    proof
      assume "\<exists>x. claude_plan_apply e repo plan_md apply_md w = Raise x w' \<and>
          (invoked w' = invoked w \<or> (\<exists>i1. invoked w' = invoked w @ [(Plan, i1)]) \<or>
           (\<exists>i1 i2. invoked w' = invoked w @ [(Plan, i1), (Apply, i2)] \<and> exit_status e (Some 600) i2 = None))"
      then obtain x where x: "claude_plan_apply e repo plan_md apply_md w = Raise x w'"
        and i: "invoked w' = invoked w \<or> (\<exists>i1. invoked w' = invoked w @ [(Plan, i1)]) \<or>
           (\<exists>i1 i2. invoked w' = invoked w @ [(Plan, i1), (Apply, i2)] \<and> exit_status e (Some 600) i2 = None)"
        by blast
      have "(case try_body e task w of
               Raise x w2 \<Rightarrow> Return (False, [], exc_name e x @ '': '' @ exc_text e x) w2
             | r' \<Rightarrow> r') = Return (False, [], exc_name e x @ '': '' @ exc_text e x) w'"
        by (simp add: call x bind_def)
      moreover have "\<forall>i1 i2. invoked w' = invoked w @ [(Plan, i1), (Apply, i2)] \<longrightarrow>
              False = (exit_status e (Some 600) i2 = Some 0)"
        using i by auto
      ultimately show ?thesis using q by blast
    next
      assume "\<exists>rc out err i1 i2. claude_plan_apply e repo plan_md apply_md w = Return (rc, out, err) w' \<and>
          invoked w' = invoked w @ [(Plan, i1), (Apply, i2)] \<and> exit_status e (Some 600) i2 = Some rc"
      then obtain rc out err i1 i2 where x: "claude_plan_apply e repo plan_md apply_md w = Return (rc, out, err) w'"
        and i: "invoked w' = invoked w @ [(Plan, i1), (Apply, i2)]" "exit_status e (Some 600) i2 = Some rc"
        by blast
      have "(case try_body e task w of
               Raise x w2 \<Rightarrow> Return (False, [], exc_name e x @ '': '' @ exc_text e x) w2
             | r' \<Rightarrow> r') = Return (rc = 0, out, err) w'"
        by (simp add: call x bind_def)
      moreover have "\<forall>i1 i2. invoked w' = invoked w @ [(Plan, i1), (Apply, i2)] \<longrightarrow>
              (rc = 0) = (exit_status e (Some 600) i2 = Some 0)"
        using i by auto
      ultimately show ?thesis using q by blast
    qed
  qed
qed

lemma worker_apply_decides:
  assumes ex: "exclusive w" and cl: "claim w = Return (Some tp) w1"
    and ld: "loads e (read_text tp w1) = Some task" and tid: "task_id task = Inr i"
    and two: "invoked (world_of (run_once e w)) = invoked w @ [(Plan, i1), (Apply, i2)]"
  shows "where_is (world_of (run_once e w)) (snd tp) =
           (if exit_status e (Some 600) i2 = Some 0 then [Done] else [Failed])"
proof -
  have exd: "exclusive (ensure_dirs w)"
    using ex by (simp add: ensure_dirs_places)
  from claimed_world[OF exd cl[unfolded claim_def]]
  obtain n c where tp: "tp = (Running, n)" and j: "ends_with ''.json'' n"
    and run: "map_of (queue w1 Running) n = Some c" and ex1: "exclusive w1"
    and inv: "invoked w1 = invoked w"
    by (auto simp: ensure_dirs_proj)
  from try_caught[of e task w1]
  obtain ok out err w2 where
    tc: "(case try_body e task w1 of
        Raise x w2 \<Rightarrow> Return (False, [], exc_name e x @ '': '' @ exc_text e x) w2
      | r' \<Rightarrow> r') = Return (ok, out, err) w2"
    and q2: "queue w2 = queue w1"
    and okk: "\<forall>i1 i2. invoked w2 = invoked w1 @ [(Plan, i1), (Apply, i2)] \<longrightarrow>
              ok = (exit_status e (Some 600) i2 = Some 0)"
    by blast
  let ?w3 = "write_artifact [i] ''stderr.txt'' err (write_artifact [i] ''stdout.txt'' out w2)"
  have q3: "queue ?w3 = queue w1" using q2 by (simp add: write_artifact_proj)
  note f = finished_job[OF ex1 j run q3, of ok]
  let ?M = "write_text (if ok then Done else Failed, n) c (unlink_path (Running, n) ?w3)"
  let ?F = "logj [(''id'', JStr i), (''ok'', JBool ok), (''latency_s'', JNum (latency_s e))] ?M"
  have ro: "run_once e w = Return () ?F"
    unfolding run_once_def cl tp
    using ld[unfolded tp] tid f(2)
    by (simp add: bind_def Let_def tc[unfolded tp])
  have "invoked ?F = invoked w2" by (simp add: logj_proj f(4) write_artifact_proj)
  then have "invoked w2 = invoked w1 @ [(Plan, i1), (Apply, i2)]" using two ro inv by simp
  then have ok: "ok = (exit_status e (Some 600) i2 = Some 0)" using okk by blast
  have "where_is ?F n = [if ok then Done else Failed]"
    using where_is_queue[OF logj_proj(1), of _ ?M n] f(3) by simp
  then show ?thesis using ro ok tp by simp
qed

text \<open>
  What does hold of both worker loops. For a claimed job on which a plan call and an apply
  call were both made, the place of the record after the round is decided by the apply
  call alone: done when its exit status is zero, failed otherwise (in the service, where
  the call has no timeout, running when it never exits). The plan call's output and status
  play no part. In the service this holds of every record; in the generic worker only of a
  record that carries a text id, as those that \<^verbatim>\<open>util.enqueue\<close> writes do.
\<close>

theorem apply_exit_status_decides:
  assumes "exclusive w"
  shows "(\<forall>jf w1 i1 i2.
            claim_job w = Return (Some jf) w1 \<and>
            invoked (world_of (worker_round e w)) = invoked w @ [(Plan, i1), (Apply, i2)] \<longrightarrow>
            where_is (world_of (worker_round e w)) (snd jf) =
              (if exit_status e None i2 = Some 0 then [Done]
               else if agent e i2 = Never then [Running] else [Failed])) \<and>
         (\<forall>tp w1 task i i1 i2.
            claim w = Return (Some tp) w1 \<and> loads e (read_text tp w1) = Some task \<and>
            task_id task = Inr i \<and>
            invoked (world_of (run_once e w)) = invoked w @ [(Plan, i1), (Apply, i2)] \<longrightarrow>
            where_is (world_of (run_once e w)) (snd tp) =
              (if exit_status e (Some 600) i2 = Some 0 then [Done] else [Failed]))"
  using service_apply_decides[OF assms] worker_apply_decides[OF assms] by blast

theorem apply_exit_status_decides_witness:
  "exclusive world3 \<and>
   claim_job world3 = Return (Some (Running, ''j3.json''))
     (empty_world\<lparr>queue := (\<lambda>_. [])(Inbox := [], Running := [(''j3.json'', job3_text)])\<rparr>) \<and>
   invoked (world_of (worker_round env1 world3)) =
     invoked world3 @ [(Plan, snd (invoked (world_of (worker_round env1 world3)) ! 0)),
                       (Apply, snd (invoked (world_of (worker_round env1 world3)) ! 1))] \<and>
   exit_status env1 None (snd (invoked (world_of (worker_round env1 world3)) ! 1)) = Some 0 \<and>
   where_is (world_of (worker_round env1 world3)) ''j3.json'' = [Done] \<and>
   exclusive world1 \<and>
   claim world1 = Return (Some (Running, ''j1.json''))
     (empty_world\<lparr>queue := (\<lambda>_. [])(Inbox := [], Running := [(''j1.json'', task1_text)])\<rparr>) \<and>
   loads env1 (read_text (Running, ''j1.json'')
     (empty_world\<lparr>queue := (\<lambda>_. [])(Inbox := [], Running := [(''j1.json'', task1_text)])\<rparr>)) = Some task1 \<and>
   task_id task1 = Inr ''j1'' \<and>
   invoked (world_of (run_once env1 world1)) =
     invoked world1 @ [(Plan, snd (invoked (world_of (run_once env1 world1)) ! 0)),
                       (Apply, snd (invoked (world_of (run_once env1 world1)) ! 1))] \<and>
   exit_status env1 (Some 600) (snd (invoked (world_of (run_once env1 world1)) ! 1)) = Some 0 \<and>
   where_is (world_of (run_once env1 world1)) ''j1.json'' = [Done]"
proof -
  let ?W = "world_of (worker_round env1 world3)"
  have ex: "exclusive world3" by code_simp
  have cl: "claim_job world3 = Return (Some (Running, ''j3.json''))
      (empty_world\<lparr>queue := (\<lambda>_. [])(Inbox := [], Running := [(''j3.json'', job3_text)])\<rparr>)"
    by (simp add: claim_job_def world3_def empty_world_def glob_json_def ends_with_def os_replace_def
        write_text_def unlink_path_def write_file_def unlink_def fun_upd_twist)
  have two: "invoked ?W = invoked world3 @ [(Plan, snd (invoked ?W ! 0)), (Apply, snd (invoked ?W ! 1))]"
    by code_simp
  have es: "exit_status env1 None (snd (invoked ?W ! 1)) = Some 0" by code_simp
  have "where_is ?W (snd (Running, ''j3.json'')) =
          (if exit_status env1 None (snd (invoked ?W ! 1)) = Some 0 then [Done]
           else if agent env1 (snd (invoked ?W ! 1)) = Never then [Running] else [Failed])"
    using apply_exit_status_decides[OF ex, of env1] cl two by blast
  then have d: "where_is ?W ''j3.json'' = [Done]" using es by simp
  let ?V = "world_of (run_once env1 world1)"
  let ?c = "empty_world\<lparr>queue := (\<lambda>_. [])(Inbox := [], Running := [(''j1.json'', task1_text)])\<rparr>"
  have ex1: "exclusive world1" by code_simp
  have ld: "loads env1 (read_text (Running, ''j1.json'') ?c) = Some task1"
    by (simp add: read_text_def env1_def)
  have ti: "task_id task1 = Inr ''j1''" by (simp add: task_id_def task1_def)
  have two1: "invoked ?V = invoked world1 @ [(Plan, snd (invoked ?V ! 0)), (Apply, snd (invoked ?V ! 1))]"
    by code_simp
  have es1: "exit_status env1 (Some 600) (snd (invoked ?V ! 1)) = Some 0" by code_simp
  have "where_is ?V (snd (Running, ''j1.json'')) =
          (if exit_status env1 (Some 600) (snd (invoked ?V ! 1)) = Some 0 then [Done] else [Failed])"
    using apply_exit_status_decides[OF ex1, of env1] claim_world1 ld ti two1 by blast
  then have d1: "where_is ?V ''j1.json'' = [Done]" using es1 by simp
  show ?thesis using ex cl two es d ex1 claim_world1 ld ti two1 es1 d1 by blast
qed

section \<open>The apply text of the service\<close>

lemma invoked_finish_log:
  "invoked (world_of (bind (finish_job jf ok W) (\<lambda>_ w'. Return () (log_event e en w')))) = invoked W"
  by (simp add: finish_job_def os_replace_def bind_def Let_def moved_proj log_event_proj
      split: option.splits)

text \<open>
  Claim C7, as amended. In the file-based style of the service, for every job whose plan
  call exits with status 0, the apply call gets the apply template filled with, as approved
  plan, the plan call's stdout with leading and trailing whitespace stripped, or the text
  \<^verbatim>\<open>Plan output missing.\<close> when nothing is left; that text stands between the heading of
  the approved plan and the heading of the task prompt.
\<close>

theorem apply_text_embeds_stripped_plan:
  assumes "loads e (read_text jf w) = Some job"
    and "job_fields e job = Inr (repo, prompt, rk, jid)"
    and "is_dir e repo" and "prompt \<noteq> []" and "claude_cli e = Some p"
    and "\<not> supports_dash_p e"
    and "agent e (plan_call e repo prompt jid) = Exits d 0 out err"
  shows "invoked (world_of (process_job e jf w)) =
           invoked w @ [(Plan, CodePlan repo (PLAN_TEMPLATE jid repo prompt (combined_rules e repo))),
                        (Apply, CodeApply repo (APPLY_TEMPLATE jid repo (combined_rules e repo)
                                                 (approved_plan out) prompt))] \<and>
         approved_plan out = (if strip out = [] then ''Plan output missing.'' else strip out) \<and>
         sublist (''## Approved Plan\<newline>'' @ approved_plan out @ ''\<newline>\<newline>## Task Prompt\<newline>'')
                 (APPLY_TEMPLATE jid repo (combined_rules e repo) (approved_plan out) prompt)"
proof -
  have pc: "plan_call e repo prompt jid = CodePlan repo (PLAN_TEMPLATE jid repo prompt (combined_rules e repo))"
    using assms(6) by (simp add: plan_call_def)
  have ac: "apply_call e repo prompt jid out =
              CodeApply repo (APPLY_TEMPLATE jid repo (combined_rules e repo) (approved_plan out) prompt)"
    using assms(6) by (simp add: apply_call_def)
  have "invoked (world_of (process_job e jf w)) =
          invoked w @ [(Plan, plan_call e repo prompt jid), (Apply, apply_call e repo prompt jid out)]"
  proof (cases "agent e (apply_call e repo prompt jid out)")
    case (Exits d2 rc2 out2 err2)
    show ?thesis
      unfolding pj_apply_exits[OF assms(1-5) assms(7) Exits] invoked_finish_log
      by (simp add: write_artifact_proj started_proj)
  next
    case Never
    show ?thesis
      unfolding pj_apply_never[OF assms(1-5) assms(7) Never]
      by (simp add: write_artifact_proj started_proj)
  next
    case CannotStart
    show ?thesis
      unfolding pj_apply_cannot_start[OF assms(1-5) assms(7) CannotStart]
      by (simp add: write_artifact_proj started_proj)
  qed
  then have 1: "invoked (world_of (process_job e jf w)) =
           invoked w @ [(Plan, CodePlan repo (PLAN_TEMPLATE jid repo prompt (combined_rules e repo))),
                        (Apply, CodeApply repo (APPLY_TEMPLATE jid repo (combined_rules e repo)
                                                 (approved_plan out) prompt))]"
    by (simp add: pc ac)
  have 2: "approved_plan out = (if strip out = [] then ''Plan output missing.'' else strip out)"
    by (simp add: approved_plan_def)
  have "APPLY_TEMPLATE jid repo (combined_rules e repo) (approved_plan out) prompt =
          (''# TaskArena Apply Instructions\<newline>\<newline>You are executing TaskArena job '' @ jid @
           '' in repository '' @ repo @
           ''.\<newline>\<newline>## Combined Rules (Host precedence)\<newline>'' @ combined_rules e repo @ ''\<newline>\<newline>'') @
          (''## Approved Plan\<newline>'' @ approved_plan out @ ''\<newline>\<newline>## Task Prompt\<newline>'') @
          (prompt @ ''\<newline>\<newline>Follow the approved plan. Explain the changes you make and ensure artifacts are generated.\<newline>'')"
    by (simp add: APPLY_TEMPLATE_def)
  then have 3: "sublist (''## Approved Plan\<newline>'' @ approved_plan out @ ''\<newline>\<newline>## Task Prompt\<newline>'')
                 (APPLY_TEMPLATE jid repo (combined_rules e repo) (approved_plan out) prompt)"
    by (simp only: sublist_appendI)
  show ?thesis using 1 2 3 by blast
qed

theorem apply_text_embeds_stripped_plan_witness:
  "loads env1 (read_text (Running, ''j3.json'') claimed3) = Some job3 \<and>
   job_fields env1 job3 = Inr (''/tmp/repoX'', ''add a README'', ''repox-0a1b2c3d'', ''j3'') \<and>
   is_dir env1 ''/tmp/repoX'' \<and> ''add a README'' \<noteq> [] \<and>
   claude_cli env1 = Some ''/usr/local/bin/claude'' \<and> \<not> supports_dash_p env1 \<and>
   agent env1 (plan_call env1 ''/tmp/repoX'' ''add a README'' ''j3'') = Exits 2 0 ''  1. Write README.md\<newline>'' [] \<and>
   approved_plan ''  1. Write README.md\<newline>'' = ''1. Write README.md'' \<and>
   invoked (world_of (process_job env1 (Running, ''j3.json'') claimed3)) =
     [(Plan, CodePlan ''/tmp/repoX'' (PLAN_TEMPLATE ''j3'' ''/tmp/repoX'' ''add a README'' ''No additional rules available.'')),
      (Apply, CodeApply ''/tmp/repoX'' (APPLY_TEMPLATE ''j3'' ''/tmp/repoX'' ''No additional rules available.''
                 ''1. Write README.md'' ''add a README''))]"
proof -
  have 1: "loads env1 (read_text (Running, ''j3.json'') claimed3) = Some job3"
    by (simp add: read_text_def claimed3_def env1_def job3_text_def task1_text_def task2_text_def quoted_def)
  have 2: "job_fields env1 job3 = Inr (''/tmp/repoX'', ''add a README'', ''repox-0a1b2c3d'', ''j3'')"
    by code_simp
  have 3: "is_dir env1 ''/tmp/repoX''" by (simp add: env1_def)
  have 4: "''add a README'' \<noteq> []" by simp
  have 5: "claude_cli env1 = Some ''/usr/local/bin/claude''" by (simp add: env1_def)
  have 6: "\<not> supports_dash_p env1" by (simp add: env1_def)
  have 7: "agent env1 (plan_call env1 ''/tmp/repoX'' ''add a README'' ''j3'') = Exits 2 0 ''  1. Write README.md\<newline>'' []"
    by (simp add: env1_def plan_call_def)
  have 8: "approved_plan ''  1. Write README.md\<newline>'' = ''1. Write README.md''" by code_simp
  have 9: "combined_rules env1 ''/tmp/repoX'' = ''No additional rules available.''"
    by (simp add: combined_rules_def env1_def)
  have 10: "invoked claimed3 = []" by (simp add: claimed3_def empty_world_def)
  from apply_text_embeds_stripped_plan[OF 1 2 3 4 5 6 7]
  have "invoked (world_of (process_job env1 (Running, ''j3.json'') claimed3)) =
     [(Plan, CodePlan ''/tmp/repoX'' (PLAN_TEMPLATE ''j3'' ''/tmp/repoX'' ''add a README'' ''No additional rules available.'')),
      (Apply, CodeApply ''/tmp/repoX'' (APPLY_TEMPLATE ''j3'' ''/tmp/repoX'' ''No additional rules available.''
                 ''1. Write README.md'' ''add a README''))]"
    unfolding 8 9 10 by simp
  then show ?thesis using 1 2 3 4 5 6 7 8 by blast
qed

text \<open>
  Claim C7 as stated fails: the plan call prints two spaces, the plan line and a newline;
  the apply text holds the stripped line and not the output as printed.
\<close>

theorem apply_text_not_verbatim:
  "(case worker_round env1 world3 of
      Return u w \<Rightarrow>
        (case invoked w of
           [(Plan, CodePlan r1 t1), (Apply, CodeApply r2 t2)] \<Rightarrow>
             agent env1 (CodePlan r1 t1) = Exits 2 0 ''  1. Write README.md\<newline>'' [] \<and>
             \<not> sublist ''  1. Write README.md\<newline>'' t2 \<and>
             sublist ''\<newline>1. Write README.md\<newline>'' t2
         | _ \<Rightarrow> False)
    | _ \<Rightarrow> False)"
  by code_simp

section \<open>What the other implementation does in each case\<close>

text \<open>The \<^verbatim>\<open>run\<close> of \<^verbatim>\<open>util.py\<close> has a timeout; \<^verbatim>\<open>log_event\<close> of the service stamps every entry.\<close>

lemma util_run_never_hangs: "run e ph args w \<noteq> Hang w'"
  by (simp add: run_600 split: behaviour.splits)

lemma log_event_has_ts:
  "\<exists>en. LOG_FILE (log_event e entry w) = LOG_FILE w @ [JObj en] \<and> map_of en ''ts'' \<noteq> None \<and>
        (\<forall>k v. map_of entry k = Some v \<longrightarrow> map_of en k = Some v)"
  by (cases "map_of entry ''ts''") (auto simp: log_event_def Let_def map_add_def)

lemma map_of_write_artifact:
  "map_of (PATCHES (write_artifact a n c w)) k =
     (if k = a @ [n] then Some c else map_of (PATCHES w) k)"
proof -
  have "k \<noteq> k' \<Longrightarrow> map_of (filter (\<lambda>f. fst f \<noteq> k') ps) k = map_of ps k" for k' and ps :: "(string list \<times> string) list"
    by (induction ps) auto
  then show ?thesis by (auto simp: write_artifact_def)
qed

text \<open>
  The service checks the repository path and the prompt before any call: the agent is not
  called, \<^verbatim>\<open>error.txt\<close> is written, the record goes to failed and the failure is logged.
\<close>

lemma service_validates:
  assumes ex: "exclusive w" and j: "ends_with ''.json'' n" and run: "map_of (queue w Running) n = Some c"
    and ld: "loads e (read_text (Running, n) w) = Some job"
    and jf: "job_fields e job = Inr (repo, prompt, rk, jid)"
    and bad: "\<not> is_dir e repo \<or> prompt = []"
  shows "\<exists>w' msg. process_job e (Running, n) w = Return () w' \<and> invoked w' = invoked w \<and>
           where_is w' n = [Failed] \<and> map_of (PATCHES w') [rk, jid, ''error.txt''] = Some msg \<and>
           LOG_FILE w' = LOG_FILE w @ [JObj (failure_entry jid repo rk msg @ [(''ts'', JNum (time_now e))])]"
proof (cases "is_dir e repo")
  case False
  let ?m = "''Repository path does not exist: '' @ repo"
  let ?W = "write_artifact [rk, jid] ''error.txt'' ?m w"
  from finish_and_log[OF ex j run, of ?W False e "failure_entry jid repo rk ?m"]
  obtain W' where "bind (finish_job (Running, n) False ?W) (\<lambda>_ w'. Return () (log_event e (failure_entry jid repo rk ?m) w')) = Return () W'"
    "where_is W' n = [Failed]" "invoked W' = invoked ?W" "PATCHES W' = PATCHES ?W"
    "LOG_FILE W' = LOG_FILE ?W @ [JObj (failure_entry jid repo rk ?m @ [(''ts'', JNum (time_now e))])]"
    by (auto simp: write_artifact_proj failure_entry_def)
  then show ?thesis
    unfolding pj_no_repo[OF ld jf False]
    by (intro exI[of _ W'] exI[of _ ?m]) (simp add: write_artifact_proj map_of_write_artifact)
next
  case True
  then have p: "prompt = []" using bad by simp
  let ?m = "''Empty prompt provided.''"
  let ?W = "write_artifact [rk, jid] ''error.txt'' ?m w"
  from finish_and_log[OF ex j run, of ?W False e "failure_entry jid repo rk ?m"]
  obtain W' where "bind (finish_job (Running, n) False ?W) (\<lambda>_ w'. Return () (log_event e (failure_entry jid repo rk ?m) w')) = Return () W'"
    "where_is W' n = [Failed]" "invoked W' = invoked ?W" "PATCHES W' = PATCHES ?W"
    "LOG_FILE W' = LOG_FILE ?W @ [JObj (failure_entry jid repo rk ?m @ [(''ts'', JNum (time_now e))])]"
    by (auto simp: write_artifact_proj failure_entry_def)
  then show ?thesis
    unfolding pj_empty_prompt[OF ld jf[unfolded p] True]
    by (intro exI[of _ W'] exI[of _ ?m]) (simp add: write_artifact_proj map_of_write_artifact)
qed

text \<open>
  The service stops after a plan call that exits with a status other than zero: no apply
  call, no apply artifact, the record goes to failed.
\<close>

lemma service_skips_apply_after_failed_plan:
  assumes ex: "exclusive w" and j: "ends_with ''.json'' n" and run: "map_of (queue w Running) n = Some c"
    and ld: "loads e (read_text (Running, n) w) = Some job"
    and jf: "job_fields e job = Inr (repo, prompt, rk, jid)"
    and ok: "is_dir e repo" "prompt \<noteq> []" "claude_cli e = Some p"
    and pl: "agent e (plan_call e repo prompt jid) = Exits d rc out err" "rc \<noteq> 0"
  shows "\<exists>w'. process_job e (Running, n) w = Return () w' \<and>
           invoked w' = invoked w @ [(Plan, plan_call e repo prompt jid)] \<and>
           where_is w' n = [Failed] \<and>
           map_of (PATCHES w') [rk, jid, ''apply.stdout.txt''] = map_of (PATCHES w) [rk, jid, ''apply.stdout.txt''] \<and>
           map_of (PATCHES w') [rk, jid, ''apply.stderr.txt''] = map_of (PATCHES w) [rk, jid, ''apply.stderr.txt'']"
proof -
  let ?W = "write_artifact [rk, jid] ''plan.stderr.txt'' err
             (write_artifact [rk, jid] ''plan.stdout.txt'' out (started Plan (plan_call e repo prompt jid) w))"
  from finish_and_log[OF ex j run, of ?W False e "failure_entry jid repo rk ''Plan step failed''"]
  obtain W' where "bind (finish_job (Running, n) False ?W) (\<lambda>_ w'. Return () (log_event e (failure_entry jid repo rk ''Plan step failed'') w')) = Return () W'"
    "where_is W' n = [Failed]" "invoked W' = invoked ?W" "PATCHES W' = PATCHES ?W"
    by (auto simp: write_artifact_proj started_proj)
  then show ?thesis
    unfolding pj_plan_failed[OF ld jf ok pl]
    by (intro exI[of _ W']) (simp add: write_artifact_proj started_proj map_of_write_artifact)
qed

lemma finish_bind_not_raise:
  fixes g :: "world \<Rightarrow> world"
  assumes ex1: "exclusive w1" and j: "ends_with ''.json'' n"
    and run: "map_of (queue w1 Running) n = Some c" and q: "queue W = queue w1"
  shows "bind (finish_job (Running, n) ok W) (\<lambda>_ w'. Return () (g w')) \<noteq> Raise x w2"
  by (simp add: finished_job(1)[OF ex1 j run q] bind_def)

lemma process_job_raise_queue:
  assumes ex1: "exclusive w1" and j: "ends_with ''.json'' n"
    and run: "map_of (queue w1 Running) n = Some c"
    and r: "process_job e (Running, n) w1 = Raise x w2"
  shows "queue w2 = queue w1"
proof -
  note nr = finish_bind_not_raise[OF ex1 j run]
  show ?thesis
  proof (cases rule: process_job_cases[of e "(Running, n)" w1])
    case invalid
    show ?thesis using r nr[of w1] unfolding pj_invalid[OF invalid] by simp
  next
    case (fields job y)
    then show ?thesis using r by (simp add: pj_fields[OF fields])
  next
    case (no_repo job repo prompt rk jid)
    show ?thesis
      using r nr[of "write_artifact [rk, jid] ''error.txt'' (''Repository path does not exist: '' @ repo) w1"]
      unfolding pj_no_repo[OF no_repo] by (simp add: write_artifact_proj)
  next
    case (empty_prompt job repo rk jid)
    show ?thesis
      using r nr[of "write_artifact [rk, jid] ''error.txt'' ''Empty prompt provided.'' w1"]
      unfolding pj_empty_prompt[OF empty_prompt] by (simp add: write_artifact_proj)
  next
    case (no_cli job repo prompt rk jid)
    show ?thesis
      using r nr[of "write_artifact [rk, jid] ''stderr.txt'' cli_not_found w1"]
      unfolding pj_no_cli[OF no_cli] by (simp add: write_artifact_proj)
  next
    case (plan_cannot_start job repo prompt rk jid p)
    then show ?thesis using r by (auto simp: pj_plan_cannot_start[OF plan_cannot_start] started_proj)
  next
    case (plan_never job repo prompt rk jid p)
    then show ?thesis using r by (simp add: pj_plan_never[OF plan_never])
  next
    case (plan_failed job repo prompt rk jid p d rc out err)
    show ?thesis
      using r nr[of "write_artifact [rk, jid] ''plan.stderr.txt'' err
             (write_artifact [rk, jid] ''plan.stdout.txt'' out (started Plan (plan_call e repo prompt jid) w1))"]
      unfolding pj_plan_failed[OF plan_failed] by (simp add: write_artifact_proj started_proj)
  next
    case (apply_cannot_start job repo prompt rk jid p d out err)
    then show ?thesis using r
      by (auto simp: pj_apply_cannot_start[OF apply_cannot_start] started_proj write_artifact_proj)
  next
    case (apply_never job repo prompt rk jid p d out err)
    then show ?thesis using r by (simp add: pj_apply_never[OF apply_never])
  next
    case (apply_exits job repo prompt rk jid p d out err d2 rc2 out2 err2)
    show ?thesis
      using r nr[of "write_artifact [rk, jid] ''apply.stderr.txt'' err2
               (write_artifact [rk, jid] ''apply.stdout.txt'' out2
                 (started Apply (apply_call e repo prompt jid out)
                   (write_artifact [rk, jid] ''plan.stderr.txt'' err
                     (write_artifact [rk, jid] ''plan.stdout.txt'' out (started Plan (plan_call e repo prompt jid) w1)))))"]
      unfolding pj_apply_exits[OF apply_exits] by (simp add: write_artifact_proj started_proj)
  qed
qed

text \<open>
  A round of \<^verbatim>\<open>Worker.run\<close> never lets an exception out; when \<^verbatim>\<open>process_job\<close> raises, the
  record goes to failed and the entry logged names the exception.
\<close>

lemma service_round_never_raises:
  assumes ex: "exclusive w"
  shows "worker_round e w \<noteq> Raise x w'"
proof -
  from claim_from_result[of "sort (glob_json (queue w Inbox))" w]
  consider (none) "claim_job w = Return None w"
    | (some) jf w1 where "claim_job w = Return (Some jf) w1"
    unfolding claim_job_def by blast
  then show ?thesis
  proof cases
    case none
    then show ?thesis by (simp add: worker_round_def bind_def)
  next
    case some
    from claimed_world[OF ex some[unfolded claim_job_def]]
    obtain n c where jf: "jf = (Running, n)" and j: "ends_with ''.json'' n"
      and run: "map_of (queue w1 Running) n = Some c" and ex1: "exclusive w1"
      by blast
    note wr = worker_round_claimed[OF some, of e, unfolded jf]
    show ?thesis
    proof (cases "process_job e (Running, n) w1")
      case (Return u v)
      then show ?thesis unfolding wr by simp
    next
      case (Hang v)
      then show ?thesis unfolding wr by simp
    next
      case (Raise y w2)
      have q: "queue w2 = queue w1" by (rule process_job_raise_queue[OF ex1 j run Raise])
      show ?thesis unfolding wr Raise using finish_bind_not_raise[OF ex1 j run q] by simp
    qed
  qed
qed

lemma service_round_handles_exception:
  assumes ex: "exclusive w" and cl: "claim_job w = Return (Some jf) w1"
    and r: "process_job e jf w1 = Raise x w2"
  shows "\<exists>w'. worker_round e w = Return () w' \<and> where_is w' (snd jf) = [Failed] \<and>
           LOG_FILE w' = LOG_FILE w2 @
             [JObj [(''id'', JStr (stem (snd jf))), (''dir'', JNull), (''repo_key'', JNull),
                    (''ok'', JBool False), (''error'', JStr (''Worker exception: '' @ str_exc e x)),
                    (''ts'', JNum (time_now e))]]"
proof -
  from claimed_world[OF ex cl[unfolded claim_job_def]]
  obtain n c where jf: "jf = (Running, n)" and j: "ends_with ''.json'' n"
    and run: "map_of (queue w1 Running) n = Some c" and ex1: "exclusive w1"
    by blast
  note wr = worker_round_claimed[OF cl, of e, unfolded jf]
  have "queue w2 = queue w1" by (rule process_job_raise_queue[OF ex1 j run r[unfolded jf]])
  from finish_and_log[OF ex1 j run this, of False e
      "[(''id'', JStr (stem n)), (''dir'', JNull), (''repo_key'', JNull),
        (''ok'', JBool False), (''error'', JStr (''Worker exception: '' @ str_exc e x))]"]
  show ?thesis unfolding wr r[unfolded jf] jf by auto
qed

lemma finish_never_hangs: "bind (finish tp ok W) (\<lambda>_ w4. Return () (g w4)) \<noteq> Hang w'"
  by (simp add: finish_def os_replace_def bind_def Let_def split: option.splits)

text \<open>Every call of the generic worker has a timeout, so a round of it always ends.\<close>

lemma run_once_never_hangs: "run_once e w \<noteq> Hang w'"
proof -
  from claim_from_result[of "sort (glob_json (queue (ensure_dirs w) Inbox))" "ensure_dirs w"]
  consider (none) "claim w = Return None (ensure_dirs w)"
    | (some) tp w1 where "claim w = Return (Some tp) w1"
    unfolding claim_def by blast
  then show ?thesis
  proof cases
    case none
    then show ?thesis by (simp add: run_once_def bind_def)
  next
    case some
    show ?thesis
    proof (cases "loads e (read_text tp w1)")
      case None
      then show ?thesis by (simp add: run_once_def some bind_def)
    next
      case (Some task)
      from try_caught[of e task w1]
      obtain ok out err w2 where
        tc: "(case try_body e task w1 of
            Raise x w2 \<Rightarrow> Return (False, [], exc_name e x @ '': '' @ exc_text e x) w2
          | r' \<Rightarrow> r') = Return (ok, out, err) w2"
        by blast
      show ?thesis
      proof (cases "task_id task")
        case (Inl x)
        then show ?thesis by (simp add: run_once_def some Some bind_def Let_def tc)
      next
        case (Inr i)
        show ?thesis
          using finish_never_hangs[of tp ok
              "write_artifact [i] ''stderr.txt'' err (write_artifact [i] ''stdout.txt'' out w2)"
              "logj [(''id'', JStr i), (''ok'', JBool ok), (''latency_s'', JNum (latency_s e))]" w']
          by (simp add: run_once_def some Some bind_def Let_def tc Inr)
      qed
    qed
  qed
qed

end
